theory Spec2Isabelle
  imports Main "HOL-Library.Char_ord" "HOL-Library.List_Lexorder"
begin

section \<open>The ONNX graph importer (core/graph.cpp)\<close>

text \<open>
  A shallow embedding of \<^verbatim>\<open>ngraph::onnx_import::Graph\<close> and \<^verbatim>\<open>Subgraph\<close>.
  The IR nodes the importer builds are shared, mutable objects, so they live in an explicit
  store indexed by node address; an \<^verbatim>\<open>Output<Node>\<close> is a pair of a node address and an
  output index. C++ exceptions are values of the type \<open>exn\<close>, and a function that may throw
  returns \<open>exn + 'a\<close>. Collaborators whose code is outside graph.cpp (the tensor decoder,
  the operator bridge, the conversion functions) are parameters, collected in records.
\<close>

subsection \<open>Exceptions\<close>

text \<open>
  The catch clauses of graph.cpp tell these classes apart. In the C++ hierarchy
  \<^verbatim>\<open>invalid_external_data\<close>, \<^verbatim>\<open>OnnxNodeValidationFailure\<close> and \<^verbatim>\<open>CheckFailure\<close> derive from
  \<^verbatim>\<open>ngraph_error\<close>, which derives from \<^verbatim>\<open>std::exception\<close>; \<open>std_exception\<close> stands for a
  standard exception outside the \<^verbatim>\<open>ngraph_error\<close> family (\<^verbatim>\<open>std::out_of_range\<close> has its own
  constructor), \<open>unknown_exception\<close> for a thrown object of any other type.
\<close>

datatype exn =
    invalid_external_data string
  | OnnxNodeValidationFailure string
  | CheckFailure string
  | ngraph_error string
  | out_of_range string
  | std_exception string
  | unknown_exception nat

fun is_invalid_external_data :: "exn \<Rightarrow> bool" where
  "is_invalid_external_data (invalid_external_data _) = True"
| "is_invalid_external_data _ = False"

fun is_OnnxNodeValidationFailure :: "exn \<Rightarrow> bool" where
  "is_OnnxNodeValidationFailure (OnnxNodeValidationFailure _) = True"
| "is_OnnxNodeValidationFailure _ = False"

fun is_ngraph_error :: "exn \<Rightarrow> bool" where
  "is_ngraph_error (invalid_external_data _) = True"
| "is_ngraph_error (OnnxNodeValidationFailure _) = True"
| "is_ngraph_error (CheckFailure _) = True"
| "is_ngraph_error (ngraph_error _) = True"
| "is_ngraph_error _ = False"

fun is_std_exception :: "exn \<Rightarrow> bool" where
  "is_std_exception (unknown_exception _) = False"
| "is_std_exception _ = True"

fun what :: "exn \<Rightarrow> string" where
  "what (invalid_external_data m) = m"
| "what (OnnxNodeValidationFailure m) = m"
| "what (CheckFailure m) = m"
| "what (ngraph_error m) = m"
| "what (out_of_range m) = m"
| "what (std_exception m) = m"
| "what (unknown_exception _) = []"

subsection \<open>The decoded model (protobuf messages)\<close>

type_synonym element_type = string
type_synonym Shape = "nat list"
type_synonym PartialShape = "nat option list option"

record TensorProto =
  t_has_name :: bool
  t_name :: string
  t_data_type :: element_type
  t_dims :: Shape
  t_raw_data :: "nat list"
  t_external_data :: "string option"

record ValueInfoProto =
  vi_name :: string
  vi_elem_type :: element_type
  vi_shape :: PartialShape

record NodeProto =
  n_domain :: string
  n_op_type :: string
  n_name :: string
  n_input :: "string list"
  n_output :: "string list"

record GraphProto =
  g_initializer :: "TensorProto list"
  g_input :: "ValueInfoProto list"
  g_node :: "NodeProto list"
  g_output :: "ValueInfoProto list"

subsection \<open>The IR store\<close>

text \<open>
  Modelled from the spec: the IR classes of the core library (\<^verbatim>\<open>ov::Node\<close>, \<^verbatim>\<open>Output\<close>, \<^verbatim>\<open>Input\<close>,
  the tensor descriptor, \<^verbatim>\<open>Parameter\<close>, \<^verbatim>\<open>Constant\<close>, \<^verbatim>\<open>Result\<close>) are not among the sources. After
  the data model of the specification an IR output is a pair of a producing node and an
  output index, with an element type, a partial shape and a set of names, and it is
  referenced, never copied, by the input slots of its consumers. The store keeps, for
  every node address, the node's type, friendly name and input values, and for every
  output its types and names; it also keeps the lines logged and the telemetry events
  sent. The types of nodes are those that graph.cpp tells apart.
\<close>

type_synonym Output = "nat \<times> nat"

datatype node_type =
    Constant "int list"
  | Parameter
  | Result
  | NullNode
  | MultiSubGraphOp
  | ONNXFrameworkNode
  | ONNXSubgraphFrameworkNode
  | Op string

datatype log_level = WARN | ERR

record store =
  node_count :: nat
  type_info :: "nat \<Rightarrow> node_type"
  friendly_name :: "nat \<Rightarrow> string"
  input_values :: "nat \<Rightarrow> Output list"
  get_element_type :: "Output \<Rightarrow> element_type"
  get_partial_shape :: "Output \<Rightarrow> PartialShape"
  tensor_names :: "Output \<Rightarrow> string set"
  tensor_name :: "Output \<Rightarrow> string"
  log :: "(log_level \<times> string) list"
  events :: "(string \<times> string \<times> nat) list"

text \<open>
  \<^verbatim>\<open>std::make_shared<T>(...)\<close>: the new node takes the next free address, with the given
  inputs and the given types for its output 0, and no tensor names. Its friendly name is
  whatever the store holds at that address (ngraph generates a default one), so every
  result below holds for any scheme of default names.
\<close>

definition make_shared :: "node_type \<Rightarrow> Output list \<Rightarrow> element_type \<Rightarrow> PartialShape \<Rightarrow> store \<Rightarrow> nat \<times> store" where
  "make_shared ty ins et ps s =
     (let a = node_count s in
      (a, s\<lparr>node_count := Suc a,
             type_info := (type_info s)(a := ty),
             input_values := (input_values s)(a := ins),
             get_element_type := (get_element_type s)((a, 0) := et),
             get_partial_shape := (get_partial_shape s)((a, 0) := ps),
             tensor_names := (tensor_names s)((a, 0) := {}),
             tensor_name := (tensor_name s)((a, 0) := [])\<rparr>))"

definition set_friendly_name :: "nat \<Rightarrow> string \<Rightarrow> store \<Rightarrow> store" where
  "set_friendly_name a nm s = s\<lparr>friendly_name := (friendly_name s)(a := nm)\<rparr>"

definition set_names :: "Output \<Rightarrow> string set \<Rightarrow> store \<Rightarrow> store" where
  "set_names out nms s = s\<lparr>tensor_names := (tensor_names s)(out := nms)\<rparr>"

definition add_names :: "Output \<Rightarrow> string set \<Rightarrow> store \<Rightarrow> store" where
  "add_names out nms s = s\<lparr>tensor_names := (tensor_names s)(out := tensor_names s out \<union> nms)\<rparr>"

definition set_name :: "Output \<Rightarrow> string \<Rightarrow> store \<Rightarrow> store" where
  "set_name out nm s = s\<lparr>tensor_name := (tensor_name s)(out := nm)\<rparr>"

definition NGRAPH_WARN :: "string \<Rightarrow> store \<Rightarrow> store" where
  "NGRAPH_WARN msg s = s\<lparr>log := log s @ [(WARN, msg)]\<rparr>"

definition NGRAPH_ERR :: "string \<Rightarrow> store \<Rightarrow> store" where
  "NGRAPH_ERR msg s = s\<lparr>log := log s @ [(ERR, msg)]\<rparr>"

definition is_null :: "store \<Rightarrow> Output \<Rightarrow> bool" where
  "is_null s out = (type_info s (fst out) = NullNode)"

fun is_constant_type :: "node_type \<Rightarrow> bool" where
  "is_constant_type (Constant _) = True"
| "is_constant_type _ = False"

definition is_constant :: "store \<Rightarrow> nat \<Rightarrow> bool" where
  "is_constant s a = is_constant_type (type_info s a)"

text \<open>
  \<^verbatim>\<open>Output::get_target_inputs\<close>: the input slots, over all nodes of the store, whose source is
  the given output.
\<close>

definition get_target_inputs :: "store \<Rightarrow> Output \<Rightarrow> (nat \<times> nat) list" where
  "get_target_inputs s out =
     concat (map (\<lambda>a. map (\<lambda>i. (a, i))
                    (filter (\<lambda>i. input_values s a ! i = out) [0..<length (input_values s a)]))
                 [0..<node_count s])"

subsection \<open>The graph cache\<close>

text \<open>
  Modelled from the spec: the class \<^verbatim>\<open>GraphCache\<close> (core/graph_cache.hpp) is not among the
  sources. The specification gives its contract: a mapping from tensor name to exactly one
  IR output with \<open>contains\<close>, \<open>get\<close> (its precondition is \<open>contains\<close>; the failure is an
  \<^verbatim>\<open>ngraph_error\<close>), a last-write-wins \<open>emplace\<close>, and \<open>remove\<close>.
\<close>

type_synonym GraphCache = "string \<rightharpoonup> Output"

definition contains :: "GraphCache \<Rightarrow> string \<Rightarrow> bool" where
  "contains c nm = (c nm \<noteq> None)"

definition get_node :: "GraphCache \<Rightarrow> string \<Rightarrow> exn + Output" where
  "get_node c nm =
     (case c nm of
        None \<Rightarrow> Inl (ngraph_error (''ng node with name: '' @ nm @ '' has not been found in the cache''))
      | Some out \<Rightarrow> Inr out)"

definition emplace_node :: "string \<Rightarrow> Output \<Rightarrow> GraphCache \<Rightarrow> GraphCache" where
  "emplace_node nm out c = c(nm \<mapsto> out)"

definition remove_node :: "string \<Rightarrow> GraphCache \<Rightarrow> GraphCache" where
  "remove_node nm c = c(nm := None)"

subsection \<open>The operator registry\<close>

text \<open>
  Modelled from the spec: the class \<^verbatim>\<open>Model\<close> (core/model.hpp) and the operators bridge are
  not among the sources. Following the specification of the operator registry, an operator
  is resolvable when its domain has been enabled and the domain's operator set holds the
  operator type; enabling a domain not seen before fetches its operator set from the
  bridge, which is the parameter \<open>get_operator_set\<close>.
\<close>

record Model =
  get_graph :: GraphProto
  m_opset :: "(string \<times> string list) list"

definition get_node_domain :: "NodeProto \<Rightarrow> string" where
  "get_node_domain node_proto = n_domain node_proto"

definition is_operator_available :: "Model \<Rightarrow> NodeProto \<Rightarrow> bool" where
  "is_operator_available m node_proto =
     (case map_of (m_opset m) (get_node_domain node_proto) of
        None \<Rightarrow> False
      | Some ops \<Rightarrow> n_op_type node_proto \<in> set ops)"

definition enable_opset_domain :: "(string \<Rightarrow> string list) \<Rightarrow> string \<Rightarrow> Model \<Rightarrow> Model" where
  "enable_opset_domain get_operator_set domain m =
     (if map_of (m_opset m) domain = None
      then m\<lparr>m_opset := m_opset m @ [(domain, get_operator_set domain)]\<rparr>
      else m)"

subsection \<open>namespace detail\<close>

text \<open>
  A \<^verbatim>\<open>std::map<std::string, V>\<close> is an association list kept sorted by key, without duplicate
  keys; \<^verbatim>\<open>emplace\<close> leaves an existing key alone.
\<close>

fun emplace :: "string \<Rightarrow> 'v \<Rightarrow> (string \<times> 'v) list \<Rightarrow> (string \<times> 'v) list" where
  "emplace k v [] = [(k, v)]"
| "emplace k v ((k', v') # m) =
     (if k = k' then (k', v') # m
      else if k < k' then (k, v) # (k', v') # m
      else (k', v') # emplace k v m)"

fun to_string :: "(string \<times> 'v) list \<Rightarrow> string" where
  "to_string [] = []"
| "to_string [(k, v)] = k"
| "to_string ((k, v) # kv # m) = k @ '', '' @ to_string (kv # m)"

definition digit_char :: "nat \<Rightarrow> char" where
  "digit_char d = ''0123456789'' ! d"

function std_to_string :: "nat \<Rightarrow> string" where
  "std_to_string n = (if n < 10 then [digit_char n] else std_to_string (n div 10) @ [digit_char (n mod 10)])"
  by pat_completeness auto
termination
  by (relation "measure id") auto

declare std_to_string.simps [simp del]

definition generate_result_name :: "store \<Rightarrow> string \<Rightarrow> nat \<Rightarrow> string" where
  "generate_result_name s onnx_output_name result_node =
     (let output_index = snd (hd (input_values s result_node))
      in onnx_output_name @ ''/sink_port_'' @ std_to_string output_index)"

definition get_op_domain_and_name :: "NodeProto \<Rightarrow> string" where
  "get_op_domain_and_name node_proto =
     (let domain = get_node_domain node_proto
      in (if domain = [] then [] else domain @ ''.'') @ n_op_type node_proto)"

definition common_node_for_all_outputs :: "Output list \<Rightarrow> exn + bool" where
  "common_node_for_all_outputs outputs =
     (case outputs of
        [] \<Rightarrow> Inl (out_of_range ''vector::_M_range_check'')
      | first_out # rest \<Rightarrow> Inr (list_all (\<lambda>out. fst out = fst first_out) rest))"

subsection \<open>Graph::Graph\<close>

text \<open>
  The collaborators of the constructor that are outside graph.cpp:
  \<open>get_ng_constant\<close> is \<^verbatim>\<open>Tensor::get_ng_constant\<close>, which decodes an initializer into the
  element type, shape and values of a constant or throws; \<open>get_operator_set\<close> is the
  operators bridge; \<open>telemetry\<close> tells whether a telemetry extension is present.
\<close>

record collaborators =
  get_ng_constant :: "TensorProto \<Rightarrow> exn + (element_type \<times> Shape \<times> int list)"
  get_operator_set :: "string \<Rightarrow> string list"
  telemetry :: bool

record Graph =
  m_model :: Model
  m_cache :: GraphCache
  m_parameters :: "nat list"

abbreviation NL :: string where
  "NL \<equiv> [CHR 0x0A]"

abbreviation QUOTE :: string where
  "QUOTE \<equiv> [CHR 0x27]"

text \<open>
  \<^verbatim>\<open>Tensor::get_ng_type\<close> (core/tensor.hpp, not among the sources) gives the element type for
  the data type of the initializer; \<open>static_shape\<close> turns a \<^verbatim>\<open>Shape\<close> into the partial shape
  of an output.
\<close>

definition get_ng_type :: "TensorProto \<Rightarrow> element_type" where
  "get_ng_type t = t_data_type t"

definition static_shape :: "Shape \<Rightarrow> PartialShape" where
  "static_shape sh = Some (map Some sh)"

definition initializer_warning :: "string \<Rightarrow> exn \<Rightarrow> string" where
  "initializer_warning nm exc =
     NL @ ''Could not create an nGraph Constant for initializer '' @ QUOTE @ nm @ QUOTE
     @ ''. Constant with a 0 value was created, make sure connected input is optional.'' @ NL
     @ ''Otherwise verify if the initializer contains a correct number of ''
     @ ''elements matching the initializer'' @ QUOTE @ ''s shape. '' @ NL @ ''Detailed error:'' @ NL
     @ what exc"

text \<open>
  The body of the loop over the initializers. The state is the local map \<open>initializers\<close>,
  the cache and the store. The three outcomes of the \<^verbatim>\<open>try\<close> block are the three branches
  on the decoder's result; an exception that neither \<^verbatim>\<open>catch\<close> clause matches leaves the
  constructor.
\<close>

definition process_initializer ::
  "collaborators \<Rightarrow> TensorProto \<Rightarrow> (string \<times> TensorProto) list \<times> GraphCache \<times> store
   \<Rightarrow> exn + ((string \<times> TensorProto) list \<times> GraphCache \<times> store)" where
  "process_initializer env initializer_tensor st =
     (case st of (initializers, cache, s) \<Rightarrow>
      if t_has_name initializer_tensor then
        (case (case get_ng_constant env initializer_tensor of
                 Inr (et, sh, vals) \<Rightarrow> Inr (make_shared (Constant vals) [] et (static_shape sh) s)
               | Inl exc \<Rightarrow>
                   if is_invalid_external_data exc then Inl exc
                   else if is_ngraph_error exc then
                     Inr (make_shared (Constant [0]) [] (get_ng_type initializer_tensor) (static_shape [])
                            (NGRAPH_WARN (initializer_warning (t_name initializer_tensor) exc) s))
                   else Inl exc) of
           Inl exc \<Rightarrow> Inl exc
         | Inr (ng_constant, s1) \<Rightarrow>
             Inr (emplace (t_name initializer_tensor) initializer_tensor initializers,
                  emplace_node (t_name initializer_tensor) (ng_constant, 0) cache,
                  set_names (ng_constant, 0) {t_name initializer_tensor} s1))
      else Inr st)"

fun process_initializers ::
  "collaborators \<Rightarrow> TensorProto list \<Rightarrow> (string \<times> TensorProto) list \<times> GraphCache \<times> store
   \<Rightarrow> exn + ((string \<times> TensorProto) list \<times> GraphCache \<times> store)" where
  "process_initializers env [] st = Inr st"
| "process_initializers env (initializer_tensor # rest) st =
     (case process_initializer env initializer_tensor st of
        Inl exc \<Rightarrow> Inl exc
      | Inr st' \<Rightarrow> process_initializers env rest st')"

text \<open>
  Modelled from the spec: \<^verbatim>\<open>ValueInfo::get_ng_node\<close> (core/value_info.hpp) is not among the
  sources. Following the specification of input binding it creates an input placeholder
  (a Parameter) with the input's declared type and shape, bound to the input's name, and
  appends it to the parameter list.
\<close>

definition get_ng_node ::
  "ValueInfoProto \<Rightarrow> (string \<times> TensorProto) list \<Rightarrow> nat list \<times> store \<Rightarrow> nat \<times> nat list \<times> store" where
  "get_ng_node value_info initializers ps =
     (case ps of (parameters, s) \<Rightarrow>
      (case make_shared Parameter [] (vi_elem_type value_info) (vi_shape value_info) s of
         (a, s1) \<Rightarrow>
           (a, parameters @ [a],
            set_names (a, 0) {vi_name value_info} (set_friendly_name a (vi_name value_info) s1))))"

definition process_input ::
  "(string \<times> TensorProto) list \<Rightarrow> ValueInfoProto \<Rightarrow> nat list \<times> GraphCache \<times> store
   \<Rightarrow> nat list \<times> GraphCache \<times> store" where
  "process_input initializers inp st =
     (case st of (parameters, cache, s) \<Rightarrow>
      if contains cache (vi_name inp) then st
      else (case get_ng_node inp initializers (parameters, s) of
              (ng_node, parameters', s') \<Rightarrow>
                (parameters', emplace_node (vi_name inp) (ng_node, 0) cache, s')))"

fun process_inputs ::
  "(string \<times> TensorProto) list \<Rightarrow> ValueInfoProto list \<Rightarrow> nat list \<times> GraphCache \<times> store
   \<Rightarrow> nat list \<times> GraphCache \<times> store" where
  "process_inputs initializers [] st = st"
| "process_inputs initializers (inp # rest) st =
     process_inputs initializers rest (process_input initializers inp st)"

text \<open>
  \<^verbatim>\<open>op_statistics[op]++\<close> on a \<^verbatim>\<open>std::map<std::string, uint64_t>\<close>; the counter cannot wrap,
  a model has fewer than \<open>2^64\<close> nodes.
\<close>

fun increment :: "string \<Rightarrow> (string \<times> nat) list \<Rightarrow> (string \<times> nat) list" where
  "increment k [] = [(k, 1)]"
| "increment k ((k', c) # m) =
     (if k = k' then (k', Suc c) # m
      else if k < k' then (k, 1) # (k', c) # m
      else (k', c) # increment k m)"

text \<open>The upfront scan of the nodes: one step of the loop, and the loop.\<close>

definition scan_node ::
  "collaborators \<Rightarrow> NodeProto \<Rightarrow> (string \<times> nat) list \<times> (string \<times> NodeProto) list \<times> Model
   \<Rightarrow> (string \<times> nat) list \<times> (string \<times> NodeProto) list \<times> Model" where
  "scan_node env node_proto st =
     (case st of (op_statistics, unknown_operators, m) \<Rightarrow>
      (let op_statistics' =
             (if telemetry env then increment (n_op_type node_proto) op_statistics else op_statistics)
       in if \<not> is_operator_available m node_proto
          then (op_statistics',
                emplace (get_op_domain_and_name node_proto) node_proto unknown_operators,
                enable_opset_domain (get_operator_set env) (get_node_domain node_proto) m)
          else (op_statistics', unknown_operators, m)))"

fun scan_nodes ::
  "collaborators \<Rightarrow> NodeProto list \<Rightarrow> (string \<times> nat) list \<times> (string \<times> NodeProto) list \<times> Model
   \<Rightarrow> (string \<times> nat) list \<times> (string \<times> NodeProto) list \<times> Model" where
  "scan_nodes env [] st = st"
| "scan_nodes env (node_proto # rest) st = scan_nodes env rest (scan_node env node_proto st)"

definition send_events :: "collaborators \<Rightarrow> (string \<times> nat) list \<Rightarrow> store \<Rightarrow> store" where
  "send_events env op_statistics s =
     (if telemetry env
      then s\<lparr>events := events s @ map (\<lambda>(op, n). (''op_count'', ''onnx_'' @ op, n)) op_statistics\<rparr>
      else s)"

text \<open>The \<^verbatim>\<open>while\<close> loop that erases the operators that have become available.\<close>

fun reverify :: "Model \<Rightarrow> (string \<times> NodeProto) list \<Rightarrow> (string \<times> NodeProto) list" where
  "reverify m [] = []"
| "reverify m ((k, node_proto) # rest) =
     (if is_operator_available m node_proto then reverify m rest
      else (k, node_proto) # reverify m rest)"

text \<open>
  \<^verbatim>\<open>NGRAPH_CHECK\<close> throws a \<^verbatim>\<open>CheckFailure\<close>; the model keeps the explanation, which is the
  concatenation of the macro's message arguments.
\<close>

definition verify_operators :: "collaborators \<Rightarrow> Model \<Rightarrow> store \<Rightarrow> exn + (Model \<times> store)" where
  "verify_operators env m s =
     (case scan_nodes env (g_node (get_graph m)) ([], [], m) of
        (op_statistics, unknown_operators, m') \<Rightarrow>
          (let s' = send_events env op_statistics s;
               unknown_operators' = reverify m' unknown_operators
           in if unknown_operators' = [] then Inr (m', s')
              else Inl (CheckFailure (''nGraph does not support the following ONNX operations: ''
                                      @ to_string unknown_operators'))))"

definition Graph_ctor :: "collaborators \<Rightarrow> Model \<Rightarrow> GraphCache \<Rightarrow> store \<Rightarrow> exn + (Graph \<times> store)" where
  "Graph_ctor env m cache s =
     (case process_initializers env (g_initializer (get_graph m)) ([], cache, s) of
        Inl exc \<Rightarrow> Inl exc
      | Inr (initializers, cache1, s1) \<Rightarrow>
          (case process_inputs initializers (g_input (get_graph m)) ([], cache1, s1) of
             (parameters, cache2, s2) \<Rightarrow>
               (case verify_operators env m s2 of
                  Inl exc \<Rightarrow> Inl exc
                | Inr (m', s3) \<Rightarrow>
                    Inr (\<lparr>m_model = m', m_cache = cache2, m_parameters = parameters\<rparr>, s3))))"

subsection \<open>Graph::set\_friendly\_names\<close>

text \<open>
  The \<^verbatim>\<open>Node\<close> wrapper is read through its protobuf message. \<^verbatim>\<open>Node::output(i)\<close> indexes the
  message's output list; protobuf leaves an index out of range undefined, and the model
  reports it as \<^verbatim>\<open>out_of_range\<close>.
\<close>

fun add_output_names :: "NodeProto \<Rightarrow> nat \<Rightarrow> Output list \<Rightarrow> store \<Rightarrow> exn + store" where
  "add_output_names onnx_node i [] s = Inr s"
| "add_output_names onnx_node i (out # rest) s =
     (if i < length (n_output onnx_node)
      then add_output_names onnx_node (Suc i) rest (add_names out {n_output onnx_node ! i} s)
      else Inl (out_of_range ''output index is out of range''))"

text \<open>
  The naming loop, from index \<open>i\<close> over the remaining converted outputs; it stops at the
  first index that is not below the number of declared outputs.
\<close>

fun name_outputs :: "NodeProto \<Rightarrow> bool \<Rightarrow> nat \<Rightarrow> Output list \<Rightarrow> store \<Rightarrow> store" where
  "name_outputs onnx_node common_node i [] s = s"
| "name_outputs onnx_node common_node i (out # rest) s =
     (if i \<ge> length (n_output onnx_node) then s
      else
        (let onnx_node_name = n_name onnx_node;
             s1 = (if onnx_node_name = []
                   then set_friendly_name (fst out) (n_output onnx_node ! i) s
                   else set_name out (n_output onnx_node ! i)
                          (if common_node
                           then set_friendly_name (fst out) (n_name onnx_node) s
                           else set_friendly_name (fst out)
                                  (n_name onnx_node @ ''_'' @ n_output onnx_node ! i) s));
             s2 = (if \<not> is_null s1 out then set_names out {n_output onnx_node ! i} s1 else s1)
         in name_outputs onnx_node common_node (Suc i) rest s2))"

definition set_friendly_names :: "NodeProto \<Rightarrow> Output list \<Rightarrow> store \<Rightarrow> exn + store" where
  "set_friendly_names onnx_node ng_subgraph_outputs s =
     (if n_op_type onnx_node = ''Identity''
      then add_output_names onnx_node 0 ng_subgraph_outputs s
      else (case common_node_for_all_outputs ng_subgraph_outputs of
              Inl exc \<Rightarrow> Inl exc
            | Inr common_node \<Rightarrow> Inr (name_outputs onnx_node common_node 0 ng_subgraph_outputs s)))"

subsection \<open>Scopes: Graph and Subgraph lookups\<close>

text \<open>
  A Subgraph holds a pointer to its parent graph and asks it when its own cache misses;
  the parent may be a Subgraph itself. A scope is the list of the caches on this chain,
  the graph's own cache first: a Graph has the scope \<open>[m_cache]\<close>, a Subgraph the scope
  \<open>m_cache # m_parent_graph\<close>. The two functions are the virtual
  \<^verbatim>\<open>is_ng_node_in_cache\<close> and \<^verbatim>\<open>get_ng_node_from_cache\<close> of Graph and Subgraph.
\<close>

fun is_ng_node_in_cache :: "GraphCache list \<Rightarrow> string \<Rightarrow> bool" where
  "is_ng_node_in_cache [] nm = False"
| "is_ng_node_in_cache [cache] nm = contains cache nm"
| "is_ng_node_in_cache (cache # parent) nm =
     (if contains cache nm then True else is_ng_node_in_cache parent nm)"

fun get_ng_node_from_cache :: "GraphCache list \<Rightarrow> string \<Rightarrow> exn + Output" where
  "get_ng_node_from_cache [] nm = get_node Map.empty nm"
| "get_ng_node_from_cache [cache] nm = get_node cache nm"
| "get_ng_node_from_cache (cache # parent) nm =
     (if contains cache nm then get_node cache nm else get_ng_node_from_cache parent nm)"

subsection \<open>Graph::make\_ng\_nodes\<close>

text \<open>
  A conversion function reads the node and the graph it belongs to (its scope), builds IR
  nodes in the store and returns the node's outputs, or throws. A failure carries the
  store it leaves behind, so that what was logged before it stays observable.
\<close>

type_synonym Operator = "NodeProto \<Rightarrow> GraphCache list \<Rightarrow> store \<Rightarrow> (exn \<times> store) + (Output list \<times> store)"

text \<open>
  Modelled from the spec: \<^verbatim>\<open>error::detail::get_error_msg_prefix\<close> (exceptions.hpp) is not
  among the sources. After the specification the prefix identifies the failing node by
  its name, or by its domain and operator type when it has no name.
\<close>

definition get_error_msg_prefix :: "NodeProto \<Rightarrow> string" where
  "get_error_msg_prefix onnx_node =
     (if n_name onnx_node = [] then get_op_domain_and_name onnx_node else n_name onnx_node)"

text \<open>The loop that caches the outputs; \<^verbatim>\<open>ng_subgraph_outputs.at(i)\<close> checks its index.\<close>

fun cache_outputs :: "Output list \<Rightarrow> nat \<Rightarrow> string list \<Rightarrow> GraphCache \<Rightarrow> exn + GraphCache" where
  "cache_outputs ng_subgraph_outputs i [] cache = Inr cache"
| "cache_outputs ng_subgraph_outputs i (nm # rest) cache =
     (if i < length ng_subgraph_outputs
      then cache_outputs ng_subgraph_outputs (Suc i) rest
             (emplace_node nm (ng_subgraph_outputs ! i) cache)
      else Inl (out_of_range ''vector::_M_range_check''))"

text \<open>
  \<open>get_operator\<close> is \<^verbatim>\<open>Model::get_operator\<close>, a parameter: it yields the conversion function
  registered for an operator type and a domain, or throws. \<open>parent\<close> is the scope of the
  enclosing graphs (empty for a top-level Graph).
\<close>

definition make_ng_nodes ::
  "(string \<Rightarrow> string \<Rightarrow> exn + Operator) \<Rightarrow> GraphCache list \<Rightarrow> NodeProto \<Rightarrow> GraphCache \<times> store
   \<Rightarrow> (exn \<times> store) + (Output list \<times> GraphCache \<times> store)" where
  "make_ng_nodes get_operator parent onnx_node st =
     (case st of (cache, s) \<Rightarrow>
      (case get_operator (n_op_type onnx_node) (n_domain onnx_node) of
         Inl exc \<Rightarrow> Inl (exc, s)
       | Inr ng_node_factory \<Rightarrow>
           (case ng_node_factory onnx_node (cache # parent) s of
              Inl (exc, s1) \<Rightarrow>
                if is_OnnxNodeValidationFailure exc then Inl (exc, s1)
                else if is_std_exception exc
                then Inl (ngraph_error (get_error_msg_prefix onnx_node @ '':'' @ NL @ what exc), s1)
                else Inl (exc, NGRAPH_ERR (get_error_msg_prefix onnx_node
                                            @ ''Unhandled exception type. '' @ NL) s1)
            | Inr (ng_subgraph_outputs, s1) \<Rightarrow>
                (case set_friendly_names onnx_node ng_subgraph_outputs s1 of
                   Inl exc \<Rightarrow> Inl (exc, s1)
                 | Inr s2 \<Rightarrow>
                     (case cache_outputs ng_subgraph_outputs 0 (n_output onnx_node) cache of
                        Inl exc \<Rightarrow> Inl (exc, s2)
                      | Inr cache' \<Rightarrow> Inr (ng_subgraph_outputs, cache', s2))))))"

subsection \<open>Graph::remove\_dangling\_parameters\<close>

definition any_tensor_name_matches_onnx_output :: "store \<Rightarrow> Output \<Rightarrow> GraphProto \<Rightarrow> bool" where
  "any_tensor_name_matches_onnx_output s param_output graph =
     (\<exists>tensor_name \<in> tensor_names s param_output.
        \<exists>out \<in> set (g_output graph). tensor_name = vi_name out)"

fun remove_dangling_parameters ::
  "store \<Rightarrow> GraphProto \<Rightarrow> nat list \<Rightarrow> GraphCache \<Rightarrow> nat list \<times> GraphCache" where
  "remove_dangling_parameters s graph [] cache = ([], cache)"
| "remove_dangling_parameters s graph (param # rest) cache =
     (if length (get_target_inputs s (param, 0)) = 0
      then (if \<not> any_tensor_name_matches_onnx_output s (param, 0) graph
            then remove_dangling_parameters s graph rest (remove_node (friendly_name s param) cache)
            else (case remove_dangling_parameters s graph rest cache of
                    (rest', cache') \<Rightarrow> (param # rest', cache')))
      else (case remove_dangling_parameters s graph rest cache of
              (rest', cache') \<Rightarrow> (param # rest', cache')))"

subsection \<open>Graph::create\_function\<close>

record Function =
  get_results :: "nat list"
  get_parameters :: "nat list"

fun get_ng_outputs :: "GraphCache list \<Rightarrow> store \<Rightarrow> ValueInfoProto list \<Rightarrow> exn + Output list" where
  "get_ng_outputs scope s [] = Inr []"
| "get_ng_outputs scope s (out # rest) =
     (case get_ng_node_from_cache scope (vi_name out) of
        Inl exc \<Rightarrow> Inl exc
      | Inr ng_output \<Rightarrow>
          (case get_ng_outputs scope s rest of
             Inl exc \<Rightarrow> Inl exc
           | Inr results \<Rightarrow> Inr (if \<not> is_null s ng_output then ng_output # results else results)))"

text \<open>
  The constructor of \<^verbatim>\<open>Function\<close> wraps every output in a Result node whose only input is
  that output.
\<close>

fun make_results :: "Output list \<Rightarrow> store \<Rightarrow> nat list \<times> store" where
  "make_results [] s = ([], s)"
| "make_results (out # rest) s =
     (case make_shared Result [out] (get_element_type s out) (get_partial_shape s out) s of
        (r, s1) \<Rightarrow> (case make_results rest s1 of (rs, s2) \<Rightarrow> (r # rs, s2)))"

text \<open>The loop of \<^verbatim>\<open>create_function\<close>, from index \<open>i\<close> over the remaining Result nodes.\<close>

fun name_results :: "ValueInfoProto list \<Rightarrow> nat \<Rightarrow> nat list \<Rightarrow> store \<Rightarrow> store" where
  "name_results onnx_outputs i [] s = s"
| "name_results onnx_outputs i (ov_result # rest) s =
     name_results onnx_outputs (Suc i) rest
       (set_friendly_name ov_result
          (generate_result_name s (vi_name (onnx_outputs ! i)) ov_result) s)"

definition create_function ::
  "GraphCache list \<Rightarrow> nat list \<Rightarrow> GraphProto \<Rightarrow> store \<Rightarrow> exn + (Function \<times> store)" where
  "create_function scope parameters graph s =
     (case get_ng_outputs scope s (g_output graph) of
        Inl exc \<Rightarrow> Inl exc
      | Inr outs \<Rightarrow>
          (case make_results outs s of
             (results, s1) \<Rightarrow>
               Inr (\<lparr>get_results = results, get_parameters = parameters\<rparr>,
                    name_results (g_output graph) 0 results s1)))"

subsection \<open>Subgraph: inputs from the parent scope\<close>

record Subgraph = Graph +
  m_parent_graph :: "GraphCache list"
  m_parameter_to_parent_node_map :: "(nat \<times> string) list"
  m_inputs_from_parent :: "string list"

text \<open>
  \<^verbatim>\<open>Subgraph::Subgraph\<close> runs the constructor of Graph with a new cache and keeps the pointer
  to the parent graph, here the parent's scope.
\<close>

definition Subgraph_ctor ::
  "collaborators \<Rightarrow> Model \<Rightarrow> GraphCache list \<Rightarrow> store \<Rightarrow> exn + (Subgraph \<times> store)" where
  "Subgraph_ctor env m parent_graph s =
     (case Graph_ctor env m Map.empty s of
        Inl exc \<Rightarrow> Inl exc
      | Inr (g, s') \<Rightarrow>
          Inr (\<lparr>m_model = m_model g, m_cache = m_cache g, m_parameters = m_parameters g,
                m_parent_graph = parent_graph, m_parameter_to_parent_node_map = [],
                m_inputs_from_parent = []\<rparr>, s'))"

text \<open>
  \<^verbatim>\<open>Node::input(i)\<close> makes a handle on the i-th input slot of an IR node and throws
  \<^verbatim>\<open>out_of_range\<close> when the node has no such slot; \<^verbatim>\<open>Input::replace_source_output\<close> rewires
  the slot.
\<close>

definition node_input :: "store \<Rightarrow> nat \<Rightarrow> nat \<Rightarrow> exn + (nat \<times> nat)" where
  "node_input s a i =
     (if i < length (input_values s a) then Inr (a, i)
      else Inl (out_of_range ''node input index is out of range''))"

definition replace_source_output :: "nat \<times> nat \<Rightarrow> Output \<Rightarrow> store \<Rightarrow> store" where
  "replace_source_output slot out s =
     s\<lparr>input_values := (input_values s)(fst slot := (input_values s (fst slot))[snd slot := out])\<rparr>"

definition replace_input_from_parent_scope_with_parameter ::
  "string \<Rightarrow> Output \<Rightarrow> nat \<times> nat \<Rightarrow> Subgraph \<times> store \<Rightarrow> Subgraph \<times> store" where
  "replace_input_from_parent_scope_with_parameter in_name from_parent_node node_to_replace_input st =
     (case st of (sg, s) \<Rightarrow>
      (case make_shared Parameter [] (get_element_type s from_parent_node)
                        (get_partial_shape s from_parent_node) s of
         (new_param, s1) \<Rightarrow>
           (sg\<lparr>m_parameter_to_parent_node_map := m_parameter_to_parent_node_map sg @ [(new_param, in_name)],
               m_cache := emplace_node in_name (new_param, 0) (m_cache sg),
               m_parameters := m_parameters sg @ [new_param],
               m_inputs_from_parent := m_inputs_from_parent sg @ [in_name]\<rparr>,
            replace_source_output node_to_replace_input (new_param, 0) s1)))"

text \<open>
  The innermost loop of the first part: for one input name found in the parent scope,
  every output name of the node that the local cache holds gets a new parameter, wired
  to the slot \<open>input_index\<close> of the IR node that produces that output.
\<close>

fun replace_for_outputs ::
  "string \<Rightarrow> Output \<Rightarrow> nat \<Rightarrow> string list \<Rightarrow> Subgraph \<times> store \<Rightarrow> exn + (Subgraph \<times> store)" where
  "replace_for_outputs in_name from_parent_node input_index [] st = Inr st"
| "replace_for_outputs in_name from_parent_node input_index (out_name # rest) st =
     (if contains (m_cache (fst st)) out_name
      then (case get_node (m_cache (fst st)) out_name of
              Inl exc \<Rightarrow> Inl exc
            | Inr node_to_replace_input \<Rightarrow>
                (case node_input (snd st) (fst node_to_replace_input) input_index of
                   Inl exc \<Rightarrow> Inl exc
                 | Inr slot \<Rightarrow>
                     replace_for_outputs in_name from_parent_node input_index rest
                       (replace_input_from_parent_scope_with_parameter in_name from_parent_node slot st)))
      else replace_for_outputs in_name from_parent_node input_index rest st)"

text \<open>
  The body of the loop over the explicit input names of one node, for the input name at
  position \<open>input_index\<close>, and the loop from \<open>input_index\<close> on.
\<close>

definition find_explicit_input ::
  "NodeProto \<Rightarrow> nat \<Rightarrow> string \<Rightarrow> Subgraph \<times> store \<Rightarrow> exn + (Subgraph \<times> store)" where
  "find_explicit_input node_proto input_index in_name st =
     (if is_ng_node_in_cache (m_parent_graph (fst st)) in_name
      then (case get_ng_node_from_cache (m_parent_graph (fst st)) in_name of
              Inl exc \<Rightarrow> Inl exc
            | Inr from_parent_node \<Rightarrow>
                if \<not> is_constant (snd st) (fst from_parent_node)
                then replace_for_outputs in_name from_parent_node input_index
                       (n_output node_proto) st
                else Inr st)
      else Inr st)"

fun find_explicit_inputs ::
  "NodeProto \<Rightarrow> nat \<Rightarrow> string list \<Rightarrow> Subgraph \<times> store \<Rightarrow> exn + (Subgraph \<times> store)" where
  "find_explicit_inputs node_proto input_index [] st = Inr st"
| "find_explicit_inputs node_proto input_index (in_name # rest) st =
     (case find_explicit_input node_proto input_index in_name st of
        Inl exc \<Rightarrow> Inl exc
      | Inr st' \<Rightarrow> find_explicit_inputs node_proto (Suc input_index) rest st')"

text \<open>
  The second part, for a node that owns subgraphs: the loop over the input values the IR
  node had when the loop started (\<open>inputs\<close> is a copy), from index \<open>i\<close> on.
\<close>

fun replace_implicit_inputs ::
  "nat \<Rightarrow> nat \<Rightarrow> Output list \<Rightarrow> Subgraph \<times> store \<Rightarrow> exn + (Subgraph \<times> store)" where
  "replace_implicit_inputs node_to_replace_input i [] st = Inr st"
| "replace_implicit_inputs node_to_replace_input i (inp # rest) st =
     (if is_constant (snd st) (fst inp)
      then replace_implicit_inputs node_to_replace_input (Suc i) rest st
      else
        (let in_name = friendly_name (snd st) (fst inp)
         in if is_ng_node_in_cache (m_parent_graph (fst st)) in_name
            then (case get_ng_node_from_cache (m_parent_graph (fst st)) in_name of
                    Inl exc \<Rightarrow> Inl exc
                  | Inr from_parent_node \<Rightarrow>
                      (case node_input (snd st) node_to_replace_input i of
                         Inl exc \<Rightarrow> Inl exc
                       | Inr slot \<Rightarrow>
                           replace_implicit_inputs node_to_replace_input (Suc i) rest
                             (replace_input_from_parent_scope_with_parameter
                                in_name from_parent_node slot st)))
            else replace_implicit_inputs node_to_replace_input (Suc i) rest st))"

fun find_implicit_inputs :: "string list \<Rightarrow> Subgraph \<times> store \<Rightarrow> exn + (Subgraph \<times> store)" where
  "find_implicit_inputs [] st = Inr st"
| "find_implicit_inputs (out_name # rest) st =
     (if contains (m_cache (fst st)) out_name
      then (case get_node (m_cache (fst st)) out_name of
              Inl exc \<Rightarrow> Inl exc
            | Inr out \<Rightarrow>
                (let node_to_replace_input = fst out
                 in if type_info (snd st) node_to_replace_input \<noteq> MultiSubGraphOp \<and>
                       type_info (snd st) node_to_replace_input \<noteq> ONNXSubgraphFrameworkNode
                    then find_implicit_inputs rest st
                    else (case replace_implicit_inputs node_to_replace_input 0
                                 (input_values (snd st) node_to_replace_input) st of
                            Inl exc \<Rightarrow> Inl exc
                          | Inr st' \<Rightarrow> find_implicit_inputs rest st')))
      else find_implicit_inputs rest st)"

fun find_inputs_from_parent_nodes :: "NodeProto list \<Rightarrow> Subgraph \<times> store \<Rightarrow> exn + (Subgraph \<times> store)" where
  "find_inputs_from_parent_nodes [] st = Inr st"
| "find_inputs_from_parent_nodes (node_proto # rest) st =
     (case find_explicit_inputs node_proto 0 (n_input node_proto) st of
        Inl exc \<Rightarrow> Inl exc
      | Inr st1 \<Rightarrow>
          (case find_implicit_inputs (n_output node_proto) st1 of
             Inl exc \<Rightarrow> Inl exc
           | Inr st2 \<Rightarrow> find_inputs_from_parent_nodes rest st2))"

definition find_inputs_from_parent :: "Subgraph \<times> store \<Rightarrow> exn + (Subgraph \<times> store)" where
  "find_inputs_from_parent st =
     find_inputs_from_parent_nodes (g_node (get_graph (m_model (fst st)))) st"

subsection \<open>Predicates used in the statements\<close>

text \<open>
  A name is materialized in a cache when the cache binds it to output 0 of a Constant node
  that exists in the store.
\<close>

definition materialized :: "GraphCache \<Rightarrow> store \<Rightarrow> string \<Rightarrow> bool" where
  "materialized cache s nm =
     (case cache nm of
        None \<Rightarrow> False
      | Some out \<Rightarrow> snd out = 0 \<and> fst out < node_count s \<and> is_constant s (fst out))"


text \<open>The friendly name that the naming loop writes at index \<open>i\<close>.\<close>

definition friendly_name_for :: "NodeProto \<Rightarrow> bool \<Rightarrow> nat \<Rightarrow> string" where
  "friendly_name_for n c i =
     (if n_name n = [] then n_output n ! i
      else if c then n_name n else n_name n @ ''_'' @ n_output n ! i)"

text \<open>
  An initializer the loop gets past: it has no name (and is skipped), or it decodes, or its
  decoding fails with an \<^verbatim>\<open>ngraph_error\<close> other than \<^verbatim>\<open>invalid_external_data\<close>.
\<close>

definition recoverable :: "collaborators \<Rightarrow> TensorProto \<Rightarrow> bool" where
  "recoverable env u =
     (t_has_name u \<longrightarrow>
        (case get_ng_constant env u of
           Inr _ \<Rightarrow> True
         | Inl exc \<Rightarrow> is_ngraph_error exc \<and> \<not> is_invalid_external_data exc))"

subsection \<open>Concrete models\<close>

definition empty_store :: store where
  "empty_store =
     \<lparr>node_count = 0, type_info = (\<lambda>a. NullNode), friendly_name = (\<lambda>a. []),
      input_values = (\<lambda>a. []), get_element_type = (\<lambda>out. []),
      get_partial_shape = (\<lambda>out. None), tensor_names = (\<lambda>out. {}),
      tensor_name = (\<lambda>out. []), log = [], events = []\<rparr>"

text \<open>
  A decoder for the examples: a payload kept in an external file that is missing is
  \<^verbatim>\<open>invalid_external_data\<close>, a payload whose length differs from the number of elements of
  the shape is an \<^verbatim>\<open>ngraph_error\<close>, and a tensor with more than eight dimensions exhausts
  the memory (\<^verbatim>\<open>std::bad_alloc\<close>, which is not an \<^verbatim>\<open>ngraph_error\<close>).
\<close>

definition decode_example :: "TensorProto \<Rightarrow> exn + (element_type \<times> Shape \<times> int list)" where
  "decode_example t =
     (if t_external_data t \<noteq> None then Inl (invalid_external_data ''data file not found'')
      else if 8 < length (t_dims t) then Inl (std_exception ''std::bad_alloc'')
      else if prod_list (t_dims t) \<noteq> length (t_raw_data t) then Inl (ngraph_error ''size mismatch'')
      else Inr (t_data_type t, t_dims t, map int (t_raw_data t)))"

definition env_example :: collaborators where
  "env_example =
     \<lparr>get_ng_constant = decode_example,
      get_operator_set = (\<lambda>d. if d = ''custom.ops'' then [''CustomOp'']
                              else if d = ''a'' then [''b.c''] else []),
      telemetry = True\<rparr>"

definition t_good :: TensorProto where
  "t_good = \<lparr>t_has_name = True, t_name = ''w'', t_data_type = ''f32'', t_dims = [2],
             t_raw_data = [5, 6], t_external_data = None\<rparr>"

definition t_external :: TensorProto where
  "t_external = \<lparr>t_has_name = True, t_name = ''e'', t_data_type = ''f32'', t_dims = [2],
                 t_raw_data = [], t_external_data = Some ''missing.bin''\<rparr>"

definition t_external_unnamed :: TensorProto where
  "t_external_unnamed = t_external\<lparr>t_has_name := False, t_name := []\<rparr>"

definition t_mismatch :: TensorProto where
  "t_mismatch = \<lparr>t_has_name = True, t_name = ''b'', t_data_type = ''i64'', t_dims = [3],
                 t_raw_data = [1], t_external_data = None\<rparr>"

definition t_huge :: TensorProto where
  "t_huge = \<lparr>t_has_name = True, t_name = ''h'', t_data_type = ''f32'',
             t_dims = [9, 9, 9, 9, 9, 9, 9, 9, 9], t_raw_data = [], t_external_data = None\<rparr>"

definition t_good_unnamed :: TensorProto where
  "t_good_unnamed = t_good\<lparr>t_has_name := False, t_name := []\<rparr>"

definition model_of :: "TensorProto list \<Rightarrow> ValueInfoProto list \<Rightarrow> NodeProto list \<Rightarrow> ValueInfoProto list \<Rightarrow> Model" where
  "model_of inits ins nodes outs =
     \<lparr>get_graph = \<lparr>g_initializer = inits, g_input = ins, g_node = nodes, g_output = outs\<rparr>,
      m_opset = [([], [''Add'', ''Identity'', ''Reciprocal'', ''Relu'', ''Split''])]\<rparr>"

definition value_info :: "string \<Rightarrow> ValueInfoProto" where
  "value_info nm = \<lparr>vi_name = nm, vi_elem_type = ''f32'', vi_shape = Some [Some 2]\<rparr>"

definition node_custom :: NodeProto where
  "node_custom = \<lparr>n_domain = ''custom.ops'', n_op_type = ''CustomOp'', n_name = ''c1'',
                  n_input = [''x''], n_output = [''y'']\<rparr>"

definition node_collide_1 :: NodeProto where
  "node_collide_1 = \<lparr>n_domain = ''a'', n_op_type = ''b.c'', n_name = [],
                     n_input = [''x''], n_output = [''y'']\<rparr>"

definition node_collide_2 :: NodeProto where
  "node_collide_2 = \<lparr>n_domain = ''a.b'', n_op_type = ''c'', n_name = [],
                     n_input = [''y''], n_output = [''z'']\<rparr>"

text \<open>A store with one operation node, whose second output port is the model's output.\<close>

definition store_one_op :: store where
  "store_one_op = snd (make_shared (Op ''Split'') [] ''f32'' None empty_store)"

text \<open>A node with two outputs, and a store with two operation nodes.\<close>

definition node_two_outputs :: NodeProto where
  "node_two_outputs = \<lparr>n_domain = [], n_op_type = ''Split'', n_name = ''N'',
                       n_input = [''x''], n_output = [''out1'', ''out2'']\<rparr>"

definition store_two_ops :: store where
  "store_two_ops = snd (make_shared (Op ''Slice'') [] ''f32'' None store_one_op)"

text \<open>
  Conversion functions for the examples. \<open>get_ng_inputs\<close> resolves the node's input names
  in the node's scope. The Identity operator passes its input through; the Relu operator
  builds one IR node with one output port, the Split operator one with two output ports;
  the Reciprocal operator builds the constant one and a Divide node that reads the
  constant at its first input slot and the node's input at the second; the Add operator
  of the example rejects its node with a standard exception.
\<close>

fun get_ng_inputs :: "GraphCache list \<Rightarrow> string list \<Rightarrow> exn + Output list" where
  "get_ng_inputs scope [] = Inr []"
| "get_ng_inputs scope (nm # rest) =
     (case get_ng_node_from_cache scope nm of
        Inl exc \<Rightarrow> Inl exc
      | Inr out \<Rightarrow> (case get_ng_inputs scope rest of
                      Inl exc \<Rightarrow> Inl exc
                    | Inr outs \<Rightarrow> Inr (out # outs)))"

definition identity_operator :: Operator where
  "identity_operator onnx_node scope s =
     (case get_ng_inputs scope (n_input onnx_node) of
        Inl exc \<Rightarrow> Inl (exc, s)
      | Inr ins \<Rightarrow> Inr (take 1 ins, s))"

definition split_operator :: Operator where
  "split_operator onnx_node scope s =
     (case get_ng_inputs scope (n_input onnx_node) of
        Inl exc \<Rightarrow> Inl (exc, s)
      | Inr ins \<Rightarrow>
          (case make_shared (Op ''Split'') ins ''f32'' None s of
             (a, s1) \<Rightarrow> Inr ([(a, 0), (a, 1)], s1)))"

definition relu_operator :: Operator where
  "relu_operator onnx_node scope s =
     (case get_ng_inputs scope (n_input onnx_node) of
        Inl exc \<Rightarrow> Inl (exc, s)
      | Inr ins \<Rightarrow>
          (case make_shared (Op ''Relu'') ins ''f32'' None s of
             (a, s1) \<Rightarrow> Inr ([(a, 0)], s1)))"

definition reciprocal_operator :: Operator where
  "reciprocal_operator onnx_node scope s =
     (case get_ng_inputs scope (n_input onnx_node) of
        Inl exc \<Rightarrow> Inl (exc, s)
      | Inr ins \<Rightarrow>
          (case make_shared (Constant [1]) [] ''f32'' (Some []) s of
             (one_node, s1) \<Rightarrow>
               (case make_shared (Op ''Divide'') ((one_node, 0) # take 1 ins) ''f32'' None s1 of
                  (a, s2) \<Rightarrow> Inr ([(a, 0)], s2))))"

definition failing_operator :: Operator where
  "failing_operator onnx_node scope s = Inl (std_exception ''unsupported attribute'', s)"

definition example_get_operator :: "string \<Rightarrow> string \<Rightarrow> exn + Operator" where
  "example_get_operator op_type domain =
     (if op_type = ''Identity'' then Inr identity_operator
      else if op_type = ''Split'' then Inr split_operator
      else if op_type = ''Relu'' then Inr relu_operator
      else if op_type = ''Reciprocal'' then Inr reciprocal_operator
      else if op_type = ''Add'' then Inr failing_operator
      else Inl (ngraph_error ''unknown operator''))"

definition node_identity :: NodeProto where
  "node_identity = \<lparr>n_domain = [], n_op_type = ''Identity'', n_name = [],
                    n_input = [''x''], n_output = [''y'']\<rparr>"

definition node_add :: NodeProto where
  "node_add = \<lparr>n_domain = [], n_op_type = ''Add'', n_name = ''sum'',
               n_input = [''x'', ''x''], n_output = [''y'']\<rparr>"

definition node_relu :: NodeProto where
  "node_relu = \<lparr>n_domain = [], n_op_type = ''Relu'', n_name = ''r'',
                n_input = [''x''], n_output = [''y'']\<rparr>"

definition node_reciprocal :: NodeProto where
  "node_reciprocal = \<lparr>n_domain = [], n_op_type = ''Reciprocal'', n_name = ''inv'',
                      n_input = [''x''], n_output = [''y'']\<rparr>"

text \<open>
  The body of a control-flow operator with a single node, in a parent graph whose cache
  binds \<open>x\<close> to the output of an operation node; and the state of the Subgraph once its
  constructor and the conversion of the node have run.
\<close>

definition parent_scope :: "GraphCache list" where
  "parent_scope = [[''x'' \<mapsto> (0, 0)]]"

definition body_of :: "NodeProto \<Rightarrow> Model" where
  "body_of n = model_of [] [] [n] [value_info (hd (n_output n))]"

definition converted_body :: "NodeProto \<Rightarrow> (exn \<times> store) + (Subgraph \<times> store)" where
  "converted_body n =
     (case Subgraph_ctor env_example (body_of n) parent_scope store_one_op of
        Inl exc \<Rightarrow> Inl (exc, store_one_op)
      | Inr (sg, s) \<Rightarrow>
          (case make_ng_nodes example_get_operator (m_parent_graph sg) n (m_cache sg, s) of
             Inl failure \<Rightarrow> Inl failure
           | Inr (outs, cache, s') \<Rightarrow> Inr (sg\<lparr>m_cache := cache\<rparr>, s')))"

section \<open>Results\<close>

lemmas example_defs = env_example_def decode_example_def t_good_def t_external_def
  t_external_unnamed_def t_mismatch_def t_huge_def t_good_unnamed_def model_of_def value_info_def
  node_custom_def node_collide_1_def node_collide_2_def empty_store_def

lemmas operator_defs = example_get_operator_def identity_operator_def split_operator_def
  failing_operator_def node_identity_def node_add_def node_two_outputs_def store_one_op_def
  store_two_ops_def

lemmas pruning_defs = get_target_inputs_def any_tensor_name_matches_onnx_output_def remove_node_def

lemmas ctor_defs = Graph_ctor_def process_initializer_def process_input_def get_ng_node_def
  verify_operators_def scan_node_def send_events_def make_shared_def set_names_def
  set_friendly_name_def emplace_node_def contains_def NGRAPH_WARN_def get_ng_type_def
  static_shape_def is_operator_available_def enable_opset_domain_def get_node_domain_def
  get_op_domain_and_name_def

subsection \<open>The operator check of the constructor\<close>

lemma set_emplace: "set (emplace k v m) \<subseteq> insert (k, v) (set m)"
  by (induction m rule: emplace.induct) (auto split: if_splits)

lemma reverify_filter: "reverify m un = filter (\<lambda>kn. \<not> is_operator_available m (snd kn)) un"
  by (induction un) auto

lemma map_of_enable:
  "map_of (m_opset (enable_opset_domain gos d m)) d' =
     (if d' = d \<and> map_of (m_opset m) d = None then Some (gos d) else map_of (m_opset m) d')"
  by (auto simp: enable_opset_domain_def map_add_def split: option.splits)

lemma get_graph_enable [simp]: "get_graph (enable_opset_domain gos d m) = get_graph m"
  by (simp add: enable_opset_domain_def)

lemma scan_node_cases:
  "scan_node env n (st, un, m) = (st', un', m') \<Longrightarrow>
     snd ` set un' \<subseteq> insert n (snd ` set un) \<and>
     (m' = m \<or> m' = enable_opset_domain (get_operator_set env) (get_node_domain n) m) \<and>
     (\<not> is_operator_available m n \<longrightarrow> m' = enable_opset_domain (get_operator_set env) (get_node_domain n) m)"
  using set_emplace[of "get_op_domain_and_name n" n un]
  by (auto simp: scan_node_def Let_def split: if_splits)

lemma scan_nodes_unknown:
  "scan_nodes env ns (st, un, m) = (st', un', m') \<Longrightarrow> snd ` set un' \<subseteq> snd ` set un \<union> set ns"
proof (induction ns arbitrary: st un m)
  case Nil
  then show ?case by simp
next
  case (Cons n ns)
  obtain st1 un1 m1 where step: "scan_node env n (st, un, m) = (st1, un1, m1)"
    by (cases "scan_node env n (st, un, m)") auto
  with Cons.prems have "scan_nodes env ns (st1, un1, m1) = (st', un', m')" by simp
  from Cons.IH[OF this] scan_node_cases[OF step] show ?case by auto
qed

lemma scan_nodes_preserves:
  "scan_nodes env ns (st, un, m) = (st', un', m') \<Longrightarrow> map_of (m_opset m) d = Some v
     \<Longrightarrow> map_of (m_opset m') d = Some v"
proof (induction ns arbitrary: st un m)
  case Nil
  then show ?case by simp
next
  case (Cons n ns)
  obtain st1 un1 m1 where step: "scan_node env n (st, un, m) = (st1, un1, m1)"
    by (cases "scan_node env n (st, un, m)") auto
  with Cons.prems have rest: "scan_nodes env ns (st1, un1, m1) = (st', un', m')" by simp
  from scan_node_cases[OF step] Cons.prems(2) have "map_of (m_opset m1) d = Some v"
    by (auto simp: map_of_enable split: if_splits)
  from Cons.IH[OF rest this] show ?case .
qed

lemma scan_nodes_enables:
  "scan_nodes env ns (st, un, m) = (st', un', m') \<Longrightarrow> n \<in> set ns
     \<Longrightarrow> map_of (m_opset m) (get_node_domain n) = None
     \<Longrightarrow> map_of (m_opset m') (get_node_domain n) = Some (get_operator_set env (get_node_domain n))"
proof (induction ns arbitrary: st un m)
  case Nil
  then show ?case by simp
next
  case (Cons n0 ns)
  obtain st1 un1 m1 where step: "scan_node env n0 (st, un, m) = (st1, un1, m1)"
    by (cases "scan_node env n0 (st, un, m)") auto
  with Cons.prems have rest: "scan_nodes env ns (st1, un1, m1) = (st', un', m')" by simp
  show ?case
  proof (cases "map_of (m_opset m1) (get_node_domain n) = None")
    case True
    have "n \<noteq> n0"
    proof
      assume "n = n0"
      with Cons.prems(3) have "\<not> is_operator_available m n0"
        by (simp add: is_operator_available_def)
      with scan_node_cases[OF step] have "m1 = enable_opset_domain (get_operator_set env) (get_node_domain n0) m"
        by simp
      with True \<open>n = n0\<close> Cons.prems(3) show False by (simp add: map_of_enable)
    qed
    with Cons.prems(2) have "n \<in> set ns" by simp
    from Cons.IH[OF rest this True] show ?thesis .
  next
    case False
    with scan_node_cases[OF step] Cons.prems(3)
    have "map_of (m_opset m1) (get_node_domain n) = Some (get_operator_set env (get_node_domain n))"
      by (auto simp: map_of_enable split: if_splits)
    from scan_nodes_preserves[OF rest this] show ?thesis .
  qed
qed

lemma scan_nodes_get_graph:
  "scan_nodes env ns (st, un, m) = (st', un', m') \<Longrightarrow> get_graph m' = get_graph m"
proof (induction ns arbitrary: st un m)
  case Nil
  then show ?case by simp
next
  case (Cons n ns)
  obtain st1 un1 m1 where step: "scan_node env n (st, un, m) = (st1, un1, m1)"
    by (cases "scan_node env n (st, un, m)") auto
  with Cons.prems have rest: "scan_nodes env ns (st1, un1, m1) = (st', un', m')" by simp
  from scan_node_cases[OF step] have "get_graph m1 = get_graph m" by auto
  with Cons.IH[OF rest] show ?case by simp
qed

lemma verify_operators_all_available:
  assumes scan: "scan_nodes env (g_node (get_graph m)) ([], [], m) = (st', un', m')"
    and av: "\<forall>n\<in>set (g_node (get_graph m)). is_operator_available m' n"
  shows "verify_operators env m s = Inr (m', send_events env st' s)"
proof -
  from scan_nodes_unknown[OF scan] have "snd ` set un' \<subseteq> set (g_node (get_graph m))" by simp
  with av have "\<forall>kn\<in>set un'. is_operator_available m' (snd kn)" by auto
  then have "reverify m' un' = []" by (simp add: reverify_filter)
  with scan show ?thesis by (simp add: verify_operators_def)
qed

text \<open>
  Claim C4. When every node of the model uses a domain that is not registered when the
  constructor starts, and the operators bridge holds each node's operator for its domain,
  every node is unavailable at the upfront scan, the scan enables the domains, the
  re-verification pass erases every recorded operator and the operator check passes with
  all operators available. Construction then succeeds whenever the loop over the
  initializers does: the constructor returns a graph, over the same \<^verbatim>\<open>GraphProto\<close>, in whose
  model every node's domain is registered with the operator set of the bridge and every
  node's operator is available; the model of that graph is the one the operator check
  returns on the store that the loop over the inputs leaves, and cache and parameters are
  the ones of that loop. The only failure left to the constructor is one that leaves the
  loop over the initializers, and it is raised unchanged.
\<close>

theorem domain_auto_registration:
  assumes unreg: "\<forall>n\<in>set (g_node (get_graph m)).
            map_of (m_opset m) (get_node_domain n) = None \<and>
            n_op_type n \<in> set (get_operator_set env (get_node_domain n))"
  shows "(\<forall>n\<in>set (g_node (get_graph m)). \<not> is_operator_available m n) \<and>
         (\<exists>m'. (\<forall>n\<in>set (g_node (get_graph m)). is_operator_available m' n) \<and>
               (\<forall>s. \<exists>s'. verify_operators env m s = Inr (m', s'))) \<and>
         (isl (Graph_ctor env m cache s) \<longleftrightarrow>
            isl (process_initializers env (g_initializer (get_graph m)) ([], cache, s))) \<and>
         (case process_initializers env (g_initializer (get_graph m)) ([], cache, s) of
            Inl exc \<Rightarrow> Graph_ctor env m cache s = Inl exc
          | Inr (initializers, cache1, s1) \<Rightarrow>
              (\<exists>g s' s2.
                 Graph_ctor env m cache s = Inr (g, s') \<and>
                 process_inputs initializers (g_input (get_graph m)) ([], cache1, s1) =
                   (m_parameters g, m_cache g, s2) \<and>
                 verify_operators env m s2 = Inr (m_model g, s') \<and>
                 get_graph (m_model g) = get_graph m \<and>
                 (\<forall>n\<in>set (g_node (get_graph (m_model g))).
                    is_operator_available (m_model g) n \<and>
                    map_of (m_opset (m_model g)) (get_node_domain n) =
                      Some (get_operator_set env (get_node_domain n)))))"
proof -
  obtain st' un' m' where scan: "scan_nodes env (g_node (get_graph m)) ([], [], m) = (st', un', m')"
    by (cases "scan_nodes env (g_node (get_graph m)) ([], [], m)") auto
  have en: "map_of (m_opset m') (get_node_domain n) = Some (get_operator_set env (get_node_domain n))"
    if n: "n \<in> set (g_node (get_graph m))" for n
  proof -
    from n unreg have "map_of (m_opset m) (get_node_domain n) = None" by auto
    from scan_nodes_enables[OF scan n this] show ?thesis .
  qed
  have av: "\<forall>n\<in>set (g_node (get_graph m)). is_operator_available m' n"
  proof
    fix n assume n: "n \<in> set (g_node (get_graph m))"
    with unreg have op: "n_op_type n \<in> set (get_operator_set env (get_node_domain n))" by auto
    from en[OF n] op show "is_operator_available m' n"
      by (simp add: is_operator_available_def)
  qed
  have gg: "get_graph m' = get_graph m"
    by (rule scan_nodes_get_graph[OF scan])
  have un: "\<forall>n\<in>set (g_node (get_graph m)). \<not> is_operator_available m n"
    using unreg by (simp add: is_operator_available_def)
  have ver: "verify_operators env m s2 = Inr (m', send_events env st' s2)" for s2
    by (rule verify_operators_all_available[OF scan av])
  have check: "\<exists>m'. (\<forall>n\<in>set (g_node (get_graph m)). is_operator_available m' n) \<and>
               (\<forall>s. \<exists>s'. verify_operators env m s = Inr (m', s'))"
    using av ver by blast
  have built: "case process_initializers env (g_initializer (get_graph m)) ([], cache, s) of
            Inl exc \<Rightarrow> Graph_ctor env m cache s = Inl exc
          | Inr (initializers, cache1, s1) \<Rightarrow>
              (\<exists>g s' s2.
                 Graph_ctor env m cache s = Inr (g, s') \<and>
                 process_inputs initializers (g_input (get_graph m)) ([], cache1, s1) =
                   (m_parameters g, m_cache g, s2) \<and>
                 verify_operators env m s2 = Inr (m_model g, s') \<and>
                 get_graph (m_model g) = get_graph m \<and>
                 (\<forall>n\<in>set (g_node (get_graph (m_model g))).
                    is_operator_available (m_model g) n \<and>
                    map_of (m_opset (m_model g)) (get_node_domain n) =
                      Some (get_operator_set env (get_node_domain n))))"
  proof (cases "process_initializers env (g_initializer (get_graph m)) ([], cache, s)")
    case (Inl exc)
    then show ?thesis by (simp add: Graph_ctor_def)
  next
    case (Inr st1)
    obtain initializers cache1 s1 where st1: "st1 = (initializers, cache1, s1)" by (cases st1) auto
    obtain parameters cache2 s2 where
      ins: "process_inputs initializers (g_input (get_graph m)) ([], cache1, s1) = (parameters, cache2, s2)"
      by (cases "process_inputs initializers (g_input (get_graph m)) ([], cache1, s1)") auto
    let ?g = "\<lparr>m_model = m', m_cache = cache2, m_parameters = parameters\<rparr>"
    from Inr st1 ins ver[of s2]
    have 1: "Graph_ctor env m cache s = Inr (?g, send_events env st' s2)"
      by (simp add: Graph_ctor_def)
    have 2: "process_inputs initializers (g_input (get_graph m)) ([], cache1, s1) =
               (m_parameters ?g, m_cache ?g, s2)"
      using ins by simp
    have 3: "verify_operators env m s2 = Inr (m_model ?g, send_events env st' s2)"
      using ver[of s2] by simp
    have 4: "get_graph (m_model ?g) = get_graph m"
      using gg by simp
    have 5: "\<forall>n\<in>set (g_node (get_graph (m_model ?g))).
                is_operator_available (m_model ?g) n \<and>
                map_of (m_opset (m_model ?g)) (get_node_domain n) =
                  Some (get_operator_set env (get_node_domain n))"
      using av en gg by simp
    have "\<exists>g s' s2.
            Graph_ctor env m cache s = Inr (g, s') \<and>
            process_inputs initializers (g_input (get_graph m)) ([], cache1, s1) =
              (m_parameters g, m_cache g, s2) \<and>
            verify_operators env m s2 = Inr (m_model g, s') \<and>
            get_graph (m_model g) = get_graph m \<and>
            (\<forall>n\<in>set (g_node (get_graph (m_model g))).
               is_operator_available (m_model g) n \<and>
               map_of (m_opset (m_model g)) (get_node_domain n) =
                 Some (get_operator_set env (get_node_domain n)))"
      by (rule exI[of _ ?g], rule exI[of _ "send_events env st' s2"], rule exI[of _ s2])
         (intro conjI 1 2 3 4 5)
    with Inr st1 show ?thesis by simp
  qed
  have ctor: "isl (Graph_ctor env m cache s) \<longleftrightarrow>
            isl (process_initializers env (g_initializer (get_graph m)) ([], cache, s))"
    using built
    by (cases "process_initializers env (g_initializer (get_graph m)) ([], cache, s)") auto
  from un check ctor built show ?thesis by (intro conjI)
qed

text \<open>
  The single-node model of the specification: one node of the domain \<open>custom.ops\<close>, which no
  opset import registers and whose operator the bridge holds. The node is unavailable in
  the model that the constructor receives and available in the model of the graph that
  the constructor returns.
\<close>

theorem domain_auto_registration_witness:
  "(case Graph_ctor env_example (model_of [] [value_info ''x''] [node_custom] [value_info ''y''])
          Map.empty empty_store of
      Inl exc \<Rightarrow> False
    | Inr (g, s') \<Rightarrow>
        g_node (get_graph (m_model g)) = [node_custom] \<and>
        is_operator_available (m_model g) node_custom \<and>
        map_of (m_opset (m_model g)) (get_node_domain node_custom) =
          Some (get_operator_set env_example (get_node_domain node_custom))) \<and>
   \<not> is_operator_available (model_of [] [value_info ''x''] [node_custom] [value_info ''y'']) node_custom"
proof -
  let ?m = "model_of [] [value_info ''x''] [node_custom] [value_info ''y'']"
  have 1: "\<forall>n\<in>set (g_node (get_graph ?m)).
            map_of (m_opset ?m) (get_node_domain n) = None \<and>
            n_op_type n \<in> set (get_operator_set env_example (get_node_domain n))"
    by (simp add: example_defs get_node_domain_def)
  have 2: "process_initializers env_example (g_initializer (get_graph ?m)) ([], Map.empty, empty_store)
             = Inr ([], Map.empty, empty_store)"
    by (simp add: example_defs)
  have 3: "g_node (get_graph ?m) = [node_custom]"
    by (simp add: example_defs)
  note main = domain_auto_registration[OF 1, of Map.empty empty_store]
  from main have un: "\<forall>n\<in>set (g_node (get_graph ?m)). \<not> is_operator_available ?m n"
    by (rule conjunct1)
  from main have "case process_initializers env_example (g_initializer (get_graph ?m)) ([], Map.empty, empty_store) of
            Inl exc \<Rightarrow> Graph_ctor env_example ?m Map.empty empty_store = Inl exc
          | Inr (initializers, cache1, s1) \<Rightarrow>
              (\<exists>g s' s2.
                 Graph_ctor env_example ?m Map.empty empty_store = Inr (g, s') \<and>
                 process_inputs initializers (g_input (get_graph ?m)) ([], cache1, s1) =
                   (m_parameters g, m_cache g, s2) \<and>
                 verify_operators env_example ?m s2 = Inr (m_model g, s') \<and>
                 get_graph (m_model g) = get_graph ?m \<and>
                 (\<forall>n\<in>set (g_node (get_graph (m_model g))).
                    is_operator_available (m_model g) n \<and>
                    map_of (m_opset (m_model g)) (get_node_domain n) =
                      Some (get_operator_set env_example (get_node_domain n))))"
    by (rule conjunct2[OF conjunct2[OF conjunct2]])
  then obtain g s' where
    ctor: "Graph_ctor env_example ?m Map.empty empty_store = Inr (g, s')"
    and gg: "get_graph (m_model g) = get_graph ?m"
    and av: "\<forall>n\<in>set (g_node (get_graph (m_model g))).
                    is_operator_available (m_model g) n \<and>
                    map_of (m_opset (m_model g)) (get_node_domain n) =
                      Some (get_operator_set env_example (get_node_domain n))"
    unfolding 2 by auto
  from gg 3 have nodes: "g_node (get_graph (m_model g)) = [node_custom]" by simp
  from av nodes have a: "is_operator_available (m_model g) node_custom"
    and e: "map_of (m_opset (m_model g)) (get_node_domain node_custom) =
          Some (get_operator_set env_example (get_node_domain node_custom))"
    by simp_all
  from un 3 have u: "\<not> is_operator_available ?m node_custom" by simp
  from ctor nodes a e u show ?thesis by simp
qed

text \<open>
  What the final check does report. The unknown operators are kept under their keys
  \<open>domain.op_type\<close>, in the order of the keys. When nodes that share a key are alike in
  availability after the scan, the keys left by the re-verification are exactly the keys of
  the nodes that are still unavailable, and if there is one, the check fails once, with a
  message that lists all of them separated by a comma and a space.
\<close>

lemma keys_emplace: "fst ` set (emplace k v m) = insert k (fst ` set m)"
  by (induction m rule: emplace.induct) (auto split: if_splits)

lemma sorted_emplace:
  "sorted_wrt (<) (map fst m) \<Longrightarrow> sorted_wrt (<) (map fst (emplace k v m))"
proof (induction m rule: emplace.induct)
  case (1 k v)
  then show ?case by simp
next
  case (2 k v k' v' m)
  from "2.prems" have tl: "sorted_wrt (<) (map fst m)" and hd: "\<forall>y\<in>fst ` set m. k' < y"
    by auto
  show ?case
  proof (cases "k = k'")
    case True
    with "2.prems" show ?thesis by simp
  next
    case False
    show ?thesis
    proof (cases "k < k'")
      case True
      with hd have "\<forall>y\<in>fst ` set m. k < y" by (auto intro: less_trans)
      with "2.prems" False True show ?thesis by auto
    next
      case ge: False
      with False have lt: "k' < k" by simp
      from "2.IH"[OF False ge tl] have IH: "sorted_wrt (<) (map fst (emplace k v m))" .
      have "\<forall>y\<in>fst ` set (emplace k v m). k' < y"
        using hd lt by (auto simp: keys_emplace)
      with IH False ge show ?thesis by auto
    qed
  qed
qed

lemma available_mono:
  assumes "scan_nodes env ns (st, un, m) = (st', un', m')" and "is_operator_available m n"
  shows "is_operator_available m' n"
proof -
  from assms(2) obtain ops where "map_of (m_opset m) (get_node_domain n) = Some ops"
    and "n_op_type n \<in> set ops"
    by (auto simp: is_operator_available_def split: option.splits)
  with scan_nodes_preserves[OF assms(1)] show ?thesis
    by (simp add: is_operator_available_def)
qed

lemma scan_nodes_keys:
  "scan_nodes env ns (st, un, m) = (st', un', m') \<Longrightarrow>
     (sorted_wrt (<) (map fst un) \<longrightarrow> sorted_wrt (<) (map fst un')) \<and>
     (\<forall>e\<in>set un'. e \<in> set un \<or> (snd e \<in> set ns \<and> fst e = get_op_domain_and_name (snd e))) \<and>
     fst ` set un \<subseteq> fst ` set un' \<and>
     (\<forall>n\<in>set ns. \<not> is_operator_available m' n \<longrightarrow> get_op_domain_and_name n \<in> fst ` set un')"
proof (induction ns arbitrary: st un m)
  case Nil
  then show ?case by simp
next
  case (Cons n ns)
  obtain st1 un1 m1 where step: "scan_node env n (st, un, m) = (st1, un1, m1)"
    by (cases "scan_node env n (st, un, m)") auto
  with Cons.prems have rest: "scan_nodes env ns (st1, un1, m1) = (st', un', m')" by simp
  note IH = Cons.IH[OF rest]
  have un1: "un1 = (if \<not> is_operator_available m n
                    then emplace (get_op_domain_and_name n) n un else un)"
    using step by (auto simp: scan_node_def Let_def split: if_splits)
  have s1: "sorted_wrt (<) (map fst un) \<longrightarrow> sorted_wrt (<) (map fst un1)"
  proof (cases "is_operator_available m n")
    case True
    with un1 show ?thesis by simp
  next
    case False
    with un1 sorted_emplace[of un "get_op_domain_and_name n" n] show ?thesis by simp
  qed
  have e1: "\<forall>e\<in>set un1. e \<in> set un \<or> (snd e = n \<and> fst e = get_op_domain_and_name n)"
    using un1 set_emplace[of "get_op_domain_and_name n" n un] by auto
  have k1: "fst ` set un \<subseteq> fst ` set un1"
    using un1 by (auto simp: keys_emplace)
  have n1: "\<not> is_operator_available m n \<longrightarrow> get_op_domain_and_name n \<in> fst ` set un1"
    using un1 by (simp add: keys_emplace)
  have mono: "is_operator_available m n \<longrightarrow> is_operator_available m' n"
    using available_mono[OF Cons.prems] by simp
  from IH have IH1: "sorted_wrt (<) (map fst un1) \<longrightarrow> sorted_wrt (<) (map fst un')"
    and IH2: "\<forall>e\<in>set un'. e \<in> set un1 \<or> (snd e \<in> set ns \<and> fst e = get_op_domain_and_name (snd e))"
    and IH3: "fst ` set un1 \<subseteq> fst ` set un'"
    and IH4: "\<forall>x\<in>set ns. \<not> is_operator_available m' x \<longrightarrow> get_op_domain_and_name x \<in> fst ` set un'"
    by blast+
  from IH1 s1 have A: "sorted_wrt (<) (map fst un) \<longrightarrow> sorted_wrt (<) (map fst un')" by simp
  have B: "\<forall>e\<in>set un'. e \<in> set un \<or> (snd e \<in> set (n # ns) \<and> fst e = get_op_domain_and_name (snd e))"
  proof
    fix e assume "e \<in> set un'"
    with IH2 have "e \<in> set un1 \<or> (snd e \<in> set ns \<and> fst e = get_op_domain_and_name (snd e))" by simp
    then show "e \<in> set un \<or> (snd e \<in> set (n # ns) \<and> fst e = get_op_domain_and_name (snd e))"
    proof
      assume "e \<in> set un1"
      with e1 have "e \<in> set un \<or> (snd e = n \<and> fst e = get_op_domain_and_name n)" by simp
      then show ?thesis by auto
    next
      assume "snd e \<in> set ns \<and> fst e = get_op_domain_and_name (snd e)"
      then show ?thesis by simp
    qed
  qed
  from IH3 k1 have C: "fst ` set un \<subseteq> fst ` set un'" by (rule order_trans[rotated])
  have D: "\<forall>x\<in>set (n # ns). \<not> is_operator_available m' x \<longrightarrow> get_op_domain_and_name x \<in> fst ` set un'"
  proof (intro ballI impI)
    fix x assume x: "x \<in> set (n # ns)" and na: "\<not> is_operator_available m' x"
    show "get_op_domain_and_name x \<in> fst ` set un'"
    proof (cases "x = n")
      case True
      with na mono have "\<not> is_operator_available m n" by auto
      with n1 have "get_op_domain_and_name n \<in> fst ` set un1" by simp
      with IH3 True show ?thesis by auto
    next
      case False
      with x have "x \<in> set ns" by simp
      with IH4 na show ?thesis by simp
    qed
  qed
  from A B C D show ?case by (intro conjI)
qed

lemma to_string_comma_joined:
  "to_string ((k, v) # m) = k @ concat (map (\<lambda>e. '', '' @ fst e) m)"
  by (induction m arbitrary: k v) auto

lemma unresolved_operators_diagnostic:
  assumes scan: "scan_nodes env (g_node (get_graph m)) ([], [], m) = (st', un', m')"
    and same: "\<forall>n1\<in>set (g_node (get_graph m)). \<forall>n2\<in>set (g_node (get_graph m)).
                 get_op_domain_and_name n1 = get_op_domain_and_name n2 \<longrightarrow>
                 is_operator_available m' n1 = is_operator_available m' n2"
    and some: "\<exists>n\<in>set (g_node (get_graph m)). \<not> is_operator_available m' n"
  shows "verify_operators env m s =
           Inl (CheckFailure (''nGraph does not support the following ONNX operations: ''
                              @ to_string (reverify m' un')))"
    and "sorted_wrt (<) (map fst (reverify m' un'))"
    and "fst ` set (reverify m' un') =
           get_op_domain_and_name ` {n \<in> set (g_node (get_graph m)). \<not> is_operator_available m' n}"
proof -
  let ?ns = "g_node (get_graph m)"
  from scan_nodes_keys[OF scan]
  have srt: "sorted_wrt (<) (map fst un')"
    and ent: "\<forall>e\<in>set un'. snd e \<in> set ?ns \<and> fst e = get_op_domain_and_name (snd e)"
    and cov: "\<forall>n\<in>set ?ns. \<not> is_operator_available m' n \<longrightarrow> get_op_domain_and_name n \<in> fst ` set un'"
    by auto
  show keys: "fst ` set (reverify m' un') =
           get_op_domain_and_name ` {n \<in> set ?ns. \<not> is_operator_available m' n}"
  proof (intro set_eqI iffI)
    fix k assume "k \<in> fst ` set (reverify m' un')"
    then obtain e where e: "e \<in> set un'" "\<not> is_operator_available m' (snd e)" "k = fst e"
      by (auto simp: reverify_filter)
    with ent have "snd e \<in> set ?ns" "k = get_op_domain_and_name (snd e)" by auto
    with e(2) show "k \<in> get_op_domain_and_name ` {n \<in> set ?ns. \<not> is_operator_available m' n}"
      by blast
  next
    fix k assume "k \<in> get_op_domain_and_name ` {n \<in> set ?ns. \<not> is_operator_available m' n}"
    then obtain n where n: "n \<in> set ?ns" "\<not> is_operator_available m' n" "k = get_op_domain_and_name n"
      by blast
    with cov obtain e where e: "e \<in> set un'" "fst e = k" by force
    with ent have "snd e \<in> set ?ns" "get_op_domain_and_name (snd e) = get_op_domain_and_name n"
      using n(3) by auto
    with same n(1,2) have "\<not> is_operator_available m' (snd e)" by blast
    with e show "k \<in> fst ` set (reverify m' un')"
      by (force simp: reverify_filter)
  qed
  from srt show "sorted_wrt (<) (map fst (reverify m' un'))"
    by (simp add: reverify_filter sorted_wrt_filter filter_map[symmetric] comp_def sorted_wrt_map)
  from keys some have "reverify m' un' \<noteq> []" by auto
  with scan show "verify_operators env m s =
           Inl (CheckFailure (''nGraph does not support the following ONNX operations: ''
                              @ to_string (reverify m' un')))"
    by (simp add: verify_operators_def)
qed

text \<open>
  One unsupported operator of the default domain and one operator of an unsupported domain
  are reported in the same message.
\<close>

lemma unsupported_operator_and_domain:
  "Graph_ctor env_example
     (model_of [] [] [\<lparr>n_domain = ''bad.domain'', n_op_type = ''Bar'', n_name = [], n_input = [], n_output = [''b'']\<rparr>,
                      \<lparr>n_domain = [], n_op_type = ''Foo'', n_name = [], n_input = [], n_output = [''a'']\<rparr>] [])
     Map.empty empty_store
   = Inl (CheckFailure ''nGraph does not support the following ONNX operations: Foo, bad.domain.Bar'')"
  by (simp add: example_defs ctor_defs)

text \<open>
  Claim C3. The final check is meant to reject every model that still holds an operator
  without a conversion function. The set of unknown operators is keyed by the string
  \<open>domain.op_type\<close>, which \<^verbatim>\<open>get_op_domain_and_name\<close> documents as a unique identifier but
  which two different (domain, op_type) pairs can share. In the model below the operator
  \<open>b.c\<close> of domain \<open>a\<close> and the operator \<open>c\<close> of domain \<open>a.b\<close> share the key \<open>a.b.c\<close>: the
  first becomes available once its domain is enabled, its entry is erased, and construction
  succeeds although the second operator is still unavailable.
\<close>

theorem key_collision_failing_input:
  "(case Graph_ctor env_example (model_of [] [] [node_collide_1, node_collide_2] []) Map.empty empty_store of
      Inl exc \<Rightarrow> False
    | Inr (g, s) \<Rightarrow>
        node_collide_2 \<in> set (g_node (get_graph (m_model g))) \<and>
        \<not> is_operator_available (m_model g) node_collide_2)"
  by (simp add: example_defs ctor_defs)

subsection \<open>The initializers and the inputs\<close>


lemma process_initializer_unnamed:
  "\<not> t_has_name t \<Longrightarrow> process_initializer env t st = Inr st"
  by (simp add: process_initializer_def split: prod.splits)

lemma process_initializer_decoded:
  assumes "t_has_name t" "get_ng_constant env t = Inr (et, sh, vals)"
  shows "process_initializer env t (inits, cache, s) =
           Inr (emplace (t_name t) t inits,
                emplace_node (t_name t) (node_count s, 0) cache,
                set_names (node_count s, 0) {t_name t}
                  (snd (make_shared (Constant vals) [] et (static_shape sh) s)))"
  using assms by (simp add: process_initializer_def make_shared_def Let_def)

lemma process_initializer_degraded:
  assumes "t_has_name t" "get_ng_constant env t = Inl exc"
    "is_ngraph_error exc" "\<not> is_invalid_external_data exc"
  shows "process_initializer env t (inits, cache, s) =
           Inr (emplace (t_name t) t inits,
                emplace_node (t_name t) (node_count s, 0) cache,
                set_names (node_count s, 0) {t_name t}
                  (snd (make_shared (Constant [0]) [] (get_ng_type t) (static_shape [])
                          (NGRAPH_WARN (initializer_warning (t_name t) exc) s))))"
  using assms by (simp add: process_initializer_def make_shared_def Let_def NGRAPH_WARN_def)

lemma process_initializer_fatal:
  assumes "t_has_name t" "get_ng_constant env t = Inl exc"
    "is_invalid_external_data exc \<or> \<not> is_ngraph_error exc"
  shows "process_initializer env t st = Inl exc"
  using assms by (auto simp: process_initializer_def split: prod.splits)

lemma process_initializers_append:
  "process_initializers env (xs @ ys) st =
     (case process_initializers env xs st of
        Inl exc \<Rightarrow> Inl exc
      | Inr st' \<Rightarrow> process_initializers env ys st')"
  by (induction xs arbitrary: st) (auto split: sum.splits)

lemma process_initializer_recoverable:
  "recoverable env u \<Longrightarrow> \<exists>st'. process_initializer env u st = Inr st'"
  by (cases st) (auto simp: recoverable_def process_initializer_def split: prod.splits sum.splits)

lemma process_initializers_recoverable:
  "\<forall>u\<in>set pre. recoverable env u \<Longrightarrow> \<exists>st'. process_initializers env pre st = Inr st'"
proof (induction pre arbitrary: st)
  case Nil
  show ?case by (rule exI[of _ st]) simp
next
  case (Cons u pre)
  from Cons.prems have "recoverable env u" by simp
  then obtain st1 where "process_initializer env u st = Inr st1"
    using process_initializer_recoverable by blast
  moreover from Cons.prems have "\<forall>u\<in>set pre. recoverable env u" by simp
  ultimately show ?case using Cons.IH[of st1] by simp
qed

lemma process_initializers_fatal:
  assumes "t \<in> set ts" and "t_has_name t" and "get_ng_constant env t = Inl exc"
    and "is_invalid_external_data exc \<or> \<not> is_ngraph_error exc"
  shows "isl (process_initializers env ts st)"
  using assms(1)
proof (induction ts arbitrary: st)
  case Nil
  then show ?case by simp
next
  case (Cons u ts)
  show ?case
  proof (cases "process_initializer env u st")
    case (Inl e)
    then show ?thesis by simp
  next
    case (Inr st')
    have "u \<noteq> t"
    proof
      assume "u = t"
      with process_initializer_fatal[OF assms(2,3,4), of st] Inr show False by simp
    qed
    with Cons.prems have "t \<in> set ts" by simp
    from Cons.IH[OF this, of st'] Inr show ?thesis by simp
  qed
qed

text \<open>
  Claim C1 (amended). When a named initializer's payload references external data that
  cannot be resolved, the constructor fails: it returns no graph and no store, so no
  substitute constant exists and no input and no node has been looked at. The failure is
  the \<^verbatim>\<open>invalid_external_data\<close> failure of that initializer when every initializer before it
  is skipped, decoded or degraded.
\<close>

theorem invalid_external_data_is_fatal:
  assumes "t \<in> set (g_initializer (get_graph m))"
    and "t_has_name t"
    and "get_ng_constant env t = Inl (invalid_external_data msg)"
  shows "isl (Graph_ctor env m cache s) \<and>
         (\<forall>pre post. g_initializer (get_graph m) = pre @ t # post \<and>
                     (\<forall>u\<in>set pre. recoverable env u) \<longrightarrow>
            Graph_ctor env m cache s = Inl (invalid_external_data msg))"
proof -
  have "isl (process_initializers env (g_initializer (get_graph m)) ([], cache, s))"
    by (rule process_initializers_fatal[OF assms]) simp
  then have fails: "isl (Graph_ctor env m cache s)"
    by (cases "process_initializers env (g_initializer (get_graph m)) ([], cache, s)")
       (simp_all add: Graph_ctor_def)
  have first: "Graph_ctor env m cache s = Inl (invalid_external_data msg)"
    if split: "g_initializer (get_graph m) = pre @ t # post"
      and rec: "\<forall>u\<in>set pre. recoverable env u" for pre post
  proof -
    obtain st' where "process_initializers env pre ([], cache, s) = Inr st'"
      using process_initializers_recoverable[OF rec] by blast
    moreover have "process_initializer env t st' = Inl (invalid_external_data msg)"
      using assms(2,3) by (simp add: process_initializer_fatal)
    ultimately have "process_initializers env (pre @ t # post) ([], cache, s)
                       = Inl (invalid_external_data msg)"
      by (simp add: process_initializers_append)
    with split show ?thesis by (simp add: Graph_ctor_def)
  qed
  from fails first show ?thesis by blast
qed

theorem invalid_external_data_is_fatal_witness:
  "Graph_ctor env_example (model_of [t_good, t_mismatch, t_external, t_good] [] [] []) Map.empty empty_store
     = Inl (invalid_external_data ''data file not found'')"
proof -
  let ?m = "model_of [t_good, t_mismatch, t_external, t_good] [] [] []"
  have 1: "t_external \<in> set (g_initializer (get_graph ?m))"
    by (simp add: model_of_def)
  have 2: "t_has_name t_external" by (simp add: example_defs)
  have 3: "get_ng_constant env_example t_external = Inl (invalid_external_data ''data file not found'')"
    by (simp add: example_defs)
  have 4: "g_initializer (get_graph ?m) = [t_good, t_mismatch] @ t_external # [t_good]"
    by (simp add: model_of_def)
  have 5: "\<forall>u\<in>set [t_good, t_mismatch]. recoverable env_example u"
    by (simp add: recoverable_def example_defs)
  from invalid_external_data_is_fatal[OF 1 2 3, of Map.empty empty_store] 4 5 show ?thesis
    by blast
qed

text \<open>
  The claim as stated covers every initializer. An initializer without a name is skipped
  by the guard \<^verbatim>\<open>if (initializer_tensor.has_name())\<close> before it is decoded, so its
  unresolvable external data goes unnoticed and construction succeeds.
\<close>

theorem unnamed_external_data_counterexample:
  "t_external_unnamed \<in> set (g_initializer (get_graph (model_of [t_external_unnamed] [] [] []))) \<and>
   get_ng_constant env_example t_external_unnamed = Inl (invalid_external_data ''data file not found'') \<and>
   \<not> isl (Graph_ctor env_example (model_of [t_external_unnamed] [] [] []) Map.empty empty_store)"
  by (simp add: example_defs ctor_defs)

text \<open>
  Claim C2 (amended). When the decoding of a named initializer fails with an
  \<^verbatim>\<open>ngraph_error\<close> other than \<^verbatim>\<open>invalid_external_data\<close>, the loop logs a warning that names the
  initializer, creates a Constant holding the single value 0 with the initializer's
  element type and the empty shape, binds the initializer's name to it in the cache, and
  goes on with the remaining initializers.
\<close>

theorem degraded_initializer_substituted:
  assumes "t_has_name t" and "get_ng_constant env t = Inl exc"
    and "is_ngraph_error exc" and "\<not> is_invalid_external_data exc"
  shows "\<exists>s'. process_initializers env (t # rest) (inits, cache, s) =
                process_initializers env rest
                  (emplace (t_name t) t inits, cache(t_name t \<mapsto> (node_count s, 0)), s') \<and>
              log s' = log s @ [(WARN, initializer_warning (t_name t) exc)] \<and>
              node_count s' = Suc (node_count s) \<and>
              type_info s' (node_count s) = Constant [0] \<and>
              get_element_type s' (node_count s, 0) = get_ng_type t \<and>
              get_partial_shape s' (node_count s, 0) = static_shape [] \<and>
              tensor_names s' (node_count s, 0) = {t_name t}"
proof -
  let ?s' = "set_names (node_count s, 0) {t_name t}
               (snd (make_shared (Constant [0]) [] (get_ng_type t) (static_shape [])
                       (NGRAPH_WARN (initializer_warning (t_name t) exc) s)))"
  have "process_initializers env (t # rest) (inits, cache, s) =
          process_initializers env rest
            (emplace (t_name t) t inits, cache(t_name t \<mapsto> (node_count s, 0)), ?s')"
    using process_initializer_degraded[OF assms, of inits cache s]
    by (simp add: emplace_node_def)
  moreover have "log ?s' = log s @ [(WARN, initializer_warning (t_name t) exc)]"
    by (simp add: make_shared_def set_names_def NGRAPH_WARN_def Let_def)
  moreover have "node_count ?s' = Suc (node_count s)"
    by (simp add: make_shared_def set_names_def NGRAPH_WARN_def Let_def)
  moreover have "type_info ?s' (node_count s) = Constant [0]"
    by (simp add: make_shared_def set_names_def NGRAPH_WARN_def Let_def)
  moreover have "get_element_type ?s' (node_count s, 0) = get_ng_type t"
    by (simp add: make_shared_def set_names_def NGRAPH_WARN_def Let_def)
  moreover have "get_partial_shape ?s' (node_count s, 0) = static_shape []"
    by (simp add: make_shared_def set_names_def NGRAPH_WARN_def Let_def)
  moreover have "tensor_names ?s' (node_count s, 0) = {t_name t}"
    by (simp add: make_shared_def set_names_def NGRAPH_WARN_def Let_def)
  ultimately show ?thesis by blast
qed

theorem degraded_initializer_substituted_witness:
  "\<exists>s'. process_initializers env_example [t_mismatch, t_good] ([], Map.empty, empty_store) =
           process_initializers env_example [t_good]
             ([(''b'', t_mismatch)], [''b'' \<mapsto> (0, 0)], s') \<and>
         log s' = [(WARN, initializer_warning ''b'' (ngraph_error ''size mismatch''))] \<and>
         type_info s' 0 = Constant [0] \<and>
         get_element_type s' (0, 0) = ''i64'' \<and>
         get_partial_shape s' (0, 0) = Some []"
proof -
  have 1: "t_has_name t_mismatch" by (simp add: example_defs)
  have 2: "get_ng_constant env_example t_mismatch = Inl (ngraph_error ''size mismatch'')"
    by (simp add: example_defs)
  have 3: "is_ngraph_error (ngraph_error ''size mismatch'')" by simp
  have 4: "\<not> is_invalid_external_data (ngraph_error ''size mismatch'')" by simp
  have n: "t_name t_mismatch = ''b''" "node_count empty_store = 0" "log empty_store = []"
    "get_ng_type t_mismatch = ''i64''" "static_shape [] = Some []"
    by (simp_all add: t_mismatch_def empty_store_def get_ng_type_def static_shape_def)
  from degraded_initializer_substituted[OF 1 2 3 4, of "[t_good]" "[]" Map.empty empty_store]
  show ?thesis
    unfolding n by (auto simp del: process_initializers.simps)
qed

text \<open>
  The claim as stated covers every failure other than unresolvable external data. The
  second \<^verbatim>\<open>catch\<close> clause matches \<^verbatim>\<open>ngraph_error\<close> only: a decoder failure of another type
  (here \<^verbatim>\<open>std::bad_alloc\<close>) leaves the constructor, with no warning and no constant.
\<close>

theorem non_ngraph_decode_failure_counterexample:
  "t_has_name t_huge \<and>
   get_ng_constant env_example t_huge = Inl (std_exception ''std::bad_alloc'') \<and>
   \<not> is_invalid_external_data (std_exception ''std::bad_alloc'') \<and>
   Graph_ctor env_example (model_of [t_huge] [] [] []) Map.empty empty_store
     = Inl (std_exception ''std::bad_alloc'')"
  by (simp add: example_defs ctor_defs)

lemma materialized_step:
  assumes "process_initializer env t (i, c, s) = Inr (i', c', s')"
  shows "(materialized c s nm \<longrightarrow> materialized c' s' nm) \<and>
         (t_has_name t \<longrightarrow> materialized c' s' (t_name t)) \<and>
         (\<not> t_has_name t \<longrightarrow> c' = c \<and> s' = s) \<and>
         node_count s \<le> node_count s'"
  using assms
  by (auto simp: process_initializer_def materialized_def make_shared_def Let_def set_names_def
        emplace_node_def is_constant_def NGRAPH_WARN_def
        split: if_splits sum.splits prod.splits option.splits)


lemma materialized_loop:
  "process_initializers env ts (i, c, s) = Inr (i', c', s') \<Longrightarrow>
     (materialized c s nm \<longrightarrow> materialized c' s' nm) \<and>
     (\<forall>t\<in>set ts. t_has_name t \<longrightarrow> materialized c' s' (t_name t))"
proof (induction ts arbitrary: i c s nm)
  case Nil
  then show ?case by simp
next
  case (Cons t ts)
  from Cons.prems obtain i1 c1 s1 where
    step: "process_initializer env t (i, c, s) = Inr (i1, c1, s1)"
    and rest: "process_initializers env ts (i1, c1, s1) = Inr (i', c', s')"
    by (auto split: sum.splits)
  have keep: "materialized c1 s1 n \<longrightarrow> materialized c' s' n" for n
    using Cons.IH[OF rest, of n] by simp
  have new: "\<forall>u\<in>set ts. t_has_name u \<longrightarrow> materialized c' s' (t_name u)"
    using Cons.IH[OF rest, of nm] by simp
  from materialized_step[OF step, of nm] keep[of nm]
  have "materialized c s nm \<longrightarrow> materialized c' s' nm" by simp
  moreover from materialized_step[OF step, of nm] keep[of "t_name t"]
  have "t_has_name t \<longrightarrow> materialized c' s' (t_name t)" by simp
  ultimately show ?case using new by simp
qed

lemma process_input_inv:
  assumes "process_input i v (ps, c, s) = (ps', c', s')"
    and "\<forall>nm\<in>K. contains c nm"
    and "\<forall>p\<in>set ps. p < node_count s \<and> friendly_name s p \<notin> K"
  shows "(\<forall>nm\<in>K. c' nm = c nm) \<and> (\<forall>p\<in>set ps'. p < node_count s' \<and> friendly_name s' p \<notin> K)"
proof (cases "contains c (vi_name v)")
  case True
  with assms show ?thesis by (simp add: process_input_def)
next
  case False
  with assms(2) have notK: "vi_name v \<notin> K" by auto
  from False assms(1) have ps': "ps' = ps @ [node_count s]"
    and c': "c' = c(vi_name v \<mapsto> (node_count s, 0))"
    and n': "node_count s' = Suc (node_count s)"
    and f': "friendly_name s' = (friendly_name s)(node_count s := vi_name v)"
    by (auto simp: process_input_def get_ng_node_def make_shared_def Let_def set_names_def
          set_friendly_name_def emplace_node_def)
  from c' notK have "\<forall>nm\<in>K. c' nm = c nm" by auto
  moreover have "\<forall>p\<in>set ps'. p < node_count s' \<and> friendly_name s' p \<notin> K"
  proof
    fix p assume "p \<in> set ps'"
    with ps' have "p \<in> set ps \<or> p = node_count s" by auto
    then show "p < node_count s' \<and> friendly_name s' p \<notin> K"
    proof
      assume "p \<in> set ps"
      with assms(3) have "p < node_count s" "friendly_name s p \<notin> K" by auto
      with n' f' show ?thesis by simp
    next
      assume "p = node_count s"
      with n' f' notK show ?thesis by simp
    qed
  qed
  ultimately show ?thesis by simp
qed

lemma process_inputs_inv:
  assumes "process_inputs i vs (ps, c, s) = (ps', c', s')"
    and "\<forall>nm\<in>K. contains c nm"
    and "\<forall>p\<in>set ps. p < node_count s \<and> friendly_name s p \<notin> K"
  shows "(\<forall>nm\<in>K. c' nm = c nm) \<and> (\<forall>p\<in>set ps'. p < node_count s' \<and> friendly_name s' p \<notin> K)"
  using assms
proof (induction vs arbitrary: ps c s)
  case Nil
  then show ?case by simp
next
  case (Cons v vs)
  obtain ps1 c1 s1 where step: "process_input i v (ps, c, s) = (ps1, c1, s1)"
    by (cases "process_input i v (ps, c, s)") auto
  with Cons.prems(1) have rest: "process_inputs i vs (ps1, c1, s1) = (ps', c', s')" by simp
  from process_input_inv[OF step Cons.prems(2,3)]
  have a: "\<forall>nm\<in>K. c1 nm = c nm" and b: "\<forall>p\<in>set ps1. p < node_count s1 \<and> friendly_name s1 p \<notin> K"
    by auto
  from a Cons.prems(2) have c: "\<forall>nm\<in>K. contains c1 nm" by (simp add: contains_def)
  from Cons.IH[OF rest c b] a show ?case by simp
qed

lemma verify_operators_store:
  "verify_operators env m s = Inr (m', s') \<Longrightarrow>
     friendly_name s' = friendly_name s \<and> node_count s' = node_count s \<and> type_info s' = type_info s"
  by (auto simp: verify_operators_def send_events_def Let_def split: prod.splits if_splits)

text \<open>
  Claim C8 (amended). When construction succeeds, the initializer loop has run to its end
  on the initial cache, and in the cache it leaves every named initializer is bound to a
  Constant; the loop over the declared inputs starts from that cache with an empty
  parameter list, and the nodes are scanned only after it, on the store that it leaves;
  the model of the graph is the one that scan returns. A declared input whose name
  that cache already holds keeps its binding, and no Parameter carries its name.
\<close>

theorem initializers_before_inputs:
  assumes "Graph_ctor env m cache s = Inr (g, s')"
  shows "\<exists>initializers cache1 s1 s2.
           process_initializers env (g_initializer (get_graph m)) ([], cache, s)
             = Inr (initializers, cache1, s1) \<and>
           (\<forall>t\<in>set (g_initializer (get_graph m)). t_has_name t \<longrightarrow> materialized cache1 s1 (t_name t)) \<and>
           process_inputs initializers (g_input (get_graph m)) ([], cache1, s1)
             = (m_parameters g, m_cache g, s2) \<and>
           verify_operators env m s2 = Inr (m_model g, s') \<and>
           (\<forall>v\<in>set (g_input (get_graph m)). contains cache1 (vi_name v) \<longrightarrow>
              m_cache g (vi_name v) = cache1 (vi_name v) \<and>
              (\<forall>p\<in>set (m_parameters g). friendly_name s' p \<noteq> vi_name v))"
proof -
  from assms obtain initializers cache1 s1 where
    inits: "process_initializers env (g_initializer (get_graph m)) ([], cache, s)
              = Inr (initializers, cache1, s1)"
    by (auto simp: Graph_ctor_def split: sum.splits)
  obtain parameters cache2 s2 where
    ins: "process_inputs initializers (g_input (get_graph m)) ([], cache1, s1) = (parameters, cache2, s2)"
    by (cases "process_inputs initializers (g_input (get_graph m)) ([], cache1, s1)") auto
  from assms inits ins obtain m' where
    ver: "verify_operators env m s2 = Inr (m', s')"
    and g: "g = \<lparr>m_model = m', m_cache = cache2, m_parameters = parameters\<rparr>"
    by (auto simp: Graph_ctor_def split: sum.splits)
  have mat: "\<forall>t\<in>set (g_initializer (get_graph m)). t_has_name t \<longrightarrow> materialized cache1 s1 (t_name t)"
    using materialized_loop[OF inits] by simp
  have "(\<forall>nm\<in>{nm. contains cache1 nm}. cache2 nm = cache1 nm) \<and>
        (\<forall>p\<in>set parameters. p < node_count s2 \<and> friendly_name s2 p \<notin> {nm. contains cache1 nm})"
    by (rule process_inputs_inv[OF ins]) simp_all
  with verify_operators_store[OF ver]
  have shadow: "\<forall>v\<in>set (g_input (get_graph m)). contains cache1 (vi_name v) \<longrightarrow>
              cache2 (vi_name v) = cache1 (vi_name v) \<and>
              (\<forall>p\<in>set parameters. friendly_name s' p \<noteq> vi_name v)"
    by auto
  from ins g have ins': "process_inputs initializers (g_input (get_graph m)) ([], cache1, s1)
             = (m_parameters g, m_cache g, s2)" by simp
  from ver g have ver': "verify_operators env m s2 = Inr (m_model g, s')" by simp
  from shadow g have shadow': "\<forall>v\<in>set (g_input (get_graph m)). contains cache1 (vi_name v) \<longrightarrow>
              m_cache g (vi_name v) = cache1 (vi_name v) \<and>
              (\<forall>p\<in>set (m_parameters g). friendly_name s' p \<noteq> vi_name v)" by simp
  show ?thesis
    by (rule exI[of _ initializers], rule exI[of _ cache1], rule exI[of _ s1], rule exI[of _ s2])
       (intro conjI inits mat ins' ver' shadow')
qed

theorem initializers_before_inputs_witness:
  "\<exists>g s'. Graph_ctor env_example (model_of [t_good] [value_info ''w'', value_info ''x''] [] []) Map.empty empty_store
             = Inr (g, s') \<and>
          materialized (m_cache g) s' ''w'' \<and> length (m_parameters g) = 1 \<and>
          map (friendly_name s') (m_parameters g) = [''x'']"
proof -
  let ?m = "model_of [t_good] [value_info ''w'', value_info ''x''] [] []"
  obtain g s' where ctor: "Graph_ctor env_example ?m Map.empty empty_store = Inr (g, s')"
    and rest: "materialized (m_cache g) s' ''w'' \<and> length (m_parameters g) = 1 \<and>
          map (friendly_name s') (m_parameters g) = [''x'']"
    by (simp add: example_defs ctor_defs materialized_def is_constant_def)
  from initializers_before_inputs[OF ctor] rest ctor show ?thesis
    by (intro exI[of _ g] exI[of _ s']) simp
qed

text \<open>
  The claim as stated covers every initializer of the list. One without a name is
  skipped: nothing is created for it and the cache stays empty.
\<close>

theorem unnamed_initializer_counterexample:
  "t_good_unnamed \<in> set (g_initializer (get_graph (model_of [t_good_unnamed] [] [] []))) \<and>
   (case Graph_ctor env_example (model_of [t_good_unnamed] [] [] []) Map.empty empty_store of
      Inl exc \<Rightarrow> False
    | Inr (g, s) \<Rightarrow> m_cache g = Map.empty \<and> node_count s = 0)"
  by (simp add: example_defs ctor_defs)

subsection \<open>The names of the Result nodes\<close>

lemma make_results_spec:
  "make_results outs s = (rs, s1) \<Longrightarrow>
     rs = [node_count s..<node_count s + length outs] \<and>
     node_count s1 = node_count s + length outs \<and>
     friendly_name s1 = friendly_name s \<and>
     (\<forall>i<length outs. input_values s1 (node_count s + i) = [outs ! i]) \<and>
     (\<forall>a<node_count s. input_values s1 a = input_values s a)"
proof (induction outs arbitrary: s rs s1)
  case Nil
  then show ?case by simp
next
  case (Cons out outs)
  obtain r sa where mk: "make_shared Result [out] (get_element_type s out) (get_partial_shape s out) s = (r, sa)"
    by (cases "make_shared Result [out] (get_element_type s out) (get_partial_shape s out) s") auto
  obtain rs' sb where rest: "make_results outs sa = (rs', sb)"
    by (cases "make_results outs sa") auto
  from Cons.prems mk rest have rs: "rs = r # rs'" and s1: "s1 = sb" by auto
  from mk have r: "r = node_count s" and na: "node_count sa = Suc (node_count s)"
    and fa: "friendly_name sa = friendly_name s"
    and ia: "input_values sa = (input_values s)(node_count s := [out])"
    by (auto simp: make_shared_def Let_def)
  note IH = Cons.IH[OF rest]
  from IH have "rs' = [node_count sa..<node_count sa + length outs]" by blast
  with na have rs'': "rs' = [Suc (node_count s)..<Suc (node_count s + length outs)]"
    by (simp del: upt_Suc)
  have "[node_count s..<Suc (node_count s + length outs)]
          = node_count s # [Suc (node_count s)..<Suc (node_count s + length outs)]"
    by (rule upt_conv_Cons) simp
  with rs r rs'' have 1: "rs = [node_count s..<node_count s + length (out # outs)]"
    by (simp del: upt_Suc)
  from IH na s1 have 2: "node_count s1 = node_count s + length (out # outs)" by simp
  from IH fa s1 have 3: "friendly_name s1 = friendly_name s" by simp
  have 4: "\<forall>i<length (out # outs). input_values s1 (node_count s + i) = [(out # outs) ! i]"
  proof (intro allI impI)
    fix i assume i: "i < length (out # outs)"
    show "input_values s1 (node_count s + i) = [(out # outs) ! i]"
    proof (cases i)
      case 0
      from IH na have "input_values sb (node_count s) = input_values sa (node_count s)" by simp
      with 0 ia s1 show ?thesis by simp
    next
      case (Suc j)
      with i have "j < length outs" by simp
      with IH have "input_values sb (node_count sa + j) = [outs ! j]" by simp
      with Suc na s1 show ?thesis by simp
    qed
  qed
  have 5: "\<forall>a<node_count s. input_values s1 a = input_values s a"
  proof (intro allI impI)
    fix a assume a: "a < node_count s"
    with na have "a < node_count sa" by simp
    with IH have "input_values sb a = input_values sa a" by simp
    with ia a s1 show "input_values s1 a = input_values s a" by simp
  qed
  from 1 2 3 4 5 show ?case by blast
qed


lemma name_results_input_values [simp]:
  "input_values (name_results outs i rs s) = input_values s"
  by (induction rs arbitrary: i s) (simp_all add: set_friendly_name_def)

lemma generate_result_name_cong:
  "input_values s1 = input_values s2 \<Longrightarrow> generate_result_name s1 nm r = generate_result_name s2 nm r"
  by (simp add: generate_result_name_def)

lemma name_results_other:
  "a \<notin> set rs \<Longrightarrow> friendly_name (name_results outs i rs s) a = friendly_name s a"
  by (induction rs arbitrary: i s) (simp_all add: set_friendly_name_def)

lemma name_results_nth:
  "distinct rs \<Longrightarrow> j < length rs \<Longrightarrow>
     friendly_name (name_results outs i rs s) (rs ! j) =
       generate_result_name s (vi_name (outs ! (i + j))) (rs ! j)"
proof (induction rs arbitrary: i j s)
  case Nil
  then show ?case by simp
next
  case (Cons r rs)
  let ?s1 = "set_friendly_name r (generate_result_name s (vi_name (outs ! i)) r) s"
  have iv: "input_values ?s1 = input_values s" by (simp add: set_friendly_name_def)
  show ?case
  proof (cases j)
    case 0
    from Cons.prems have "r \<notin> set rs" by simp
    then have "friendly_name (name_results outs (Suc i) rs ?s1) r = friendly_name ?s1 r"
      by (rule name_results_other)
    with 0 show ?thesis by (simp add: set_friendly_name_def)
  next
    case (Suc k)
    with Cons.prems have "distinct rs" "k < length rs" by simp_all
    from Cons.IH[OF this, of "Suc i" ?s1] Suc generate_result_name_cong[OF iv]
    show ?thesis by simp
  qed
qed


lemma get_ng_outputs_length:
  "get_ng_outputs scope s outs = Inr results \<Longrightarrow> length results \<le> length outs"
proof (induction outs arbitrary: results)
  case Nil
  then show ?case by simp
next
  case (Cons out outs)
  from Cons.prems obtain ng_output rest where
    rest: "get_ng_outputs scope s outs = Inr rest"
    and res: "results = (if \<not> is_null s ng_output then ng_output # rest else rest)"
    by (auto split: sum.splits)
  from Cons.IH[OF rest] res show ?case by simp
qed

lemma digit_char_not_slash: "d < 10 \<Longrightarrow> digit_char d \<noteq> CHR ''/''"
proof -
  assume "d < 10"
  then have "d \<in> {0, 1, 2, 3, 4, 5, 6, 7, 8, 9}" by auto
  then show ?thesis by (auto simp: digit_char_def)
qed

lemma std_to_string_no_slash: "CHR ''/'' \<notin> set (std_to_string n)"
proof (induction n rule: std_to_string.induct)
  case (1 n)
  show ?case
  proof (cases "n < 10")
    case True
    then show ?thesis using digit_char_not_slash[of n] by (simp add: std_to_string.simps[of n])
  next
    case False
    with "1.IH" digit_char_not_slash[of "n mod 10"] show ?thesis
      by (simp add: std_to_string.simps[of n])
  qed
qed

lemma last_split_unique:
  "c \<notin> set v \<Longrightarrow> c \<notin> set v' \<Longrightarrow> u @ c # v = u' @ c # v' \<Longrightarrow> u = u' \<and> v = v'"
proof (induction u arbitrary: u')
  case Nil
  then show ?case by (cases u') auto
next
  case (Cons a u)
  then show ?case by (cases u') auto
qed

lemma sink_port_names_injective:
  assumes "nm1 @ ''/sink_port_'' @ std_to_string i = nm2 @ ''/sink_port_'' @ std_to_string j"
  shows "nm1 = nm2"
proof -
  have "CHR ''/'' \<notin> set (''sink_port_'' @ std_to_string i)"
    "CHR ''/'' \<notin> set (''sink_port_'' @ std_to_string j)"
    using std_to_string_no_slash by simp_all
  moreover from assms
  have "nm1 @ CHR ''/'' # (''sink_port_'' @ std_to_string i) = nm2 @ CHR ''/'' # (''sink_port_'' @ std_to_string j)"
    by simp
  ultimately show ?thesis by (blast dest: last_split_unique)
qed

text \<open>
  Claim C10. In every function that \<^verbatim>\<open>create_function\<close> returns (it is the last step of
  \<^verbatim>\<open>Graph::convert\<close>, of \<^verbatim>\<open>Subgraph::convert\<close> and of \<^verbatim>\<open>Graph::decode\<close>, whatever state the
  steps before it leave), the i-th Result node has exactly one input, and its friendly
  name is the i-th declared output name followed by \<open>/sink_port_\<close> and the decimal index of
  the output port that feeds it. Result nodes named after different declared outputs have
  different friendly names, whatever the names of the nodes that feed them.
\<close>

theorem result_friendly_names:
  assumes "create_function scope parameters graph s = Inr (f, s')"
  shows "(\<forall>i<length (get_results f).
            i < length (g_output graph) \<and>
            (\<exists>source. input_values s' (get_results f ! i) = [source] \<and>
               friendly_name s' (get_results f ! i) =
                 vi_name (g_output graph ! i) @ ''/sink_port_'' @ std_to_string (snd source))) \<and>
         (\<forall>i j. i < length (get_results f) \<and> j < length (get_results f) \<and>
                vi_name (g_output graph ! i) \<noteq> vi_name (g_output graph ! j) \<longrightarrow>
                friendly_name s' (get_results f ! i) \<noteq> friendly_name s' (get_results f ! j))"
proof -
  have names: "\<forall>i<length (get_results f).
            i < length (g_output graph) \<and>
            (\<exists>source. input_values s' (get_results f ! i) = [source] \<and>
               friendly_name s' (get_results f ! i) =
                 vi_name (g_output graph ! i) @ ''/sink_port_'' @ std_to_string (snd source))"
  proof (intro allI impI)
    fix i assume i: "i < length (get_results f)"
    from assms obtain outs where outs: "get_ng_outputs scope s (g_output graph) = Inr outs"
      by (auto simp: create_function_def split: sum.splits)
    obtain rs s1 where mk: "make_results outs s = (rs, s1)"
      by (cases "make_results outs s") auto
    from assms outs mk have f: "get_results f = rs"
      and s': "s' = name_results (g_output graph) 0 rs s1"
      by (auto simp: create_function_def)
    note spec = make_results_spec[OF mk]
    from spec have rs: "rs = [node_count s..<node_count s + length outs]" by simp
    then have len: "length rs = length outs" and dist: "distinct rs" by simp_all
    from i f len have io: "i < length outs" by simp
    with rs have ri: "rs ! i = node_count s + i" by simp
    from spec io ri have src: "input_values s1 (rs ! i) = [outs ! i]" by simp
    from i f have "i < length rs" by simp
    from name_results_nth[OF dist this, of "g_output graph" 0 s1] s'
    have "friendly_name s' (rs ! i) = generate_result_name s1 (vi_name (g_output graph ! i)) (rs ! i)"
      by simp
    with src have nm: "friendly_name s' (rs ! i) =
        vi_name (g_output graph ! i) @ ''/sink_port_'' @ std_to_string (snd (outs ! i))"
      by (simp add: generate_result_name_def)
    from s' src have "input_values s' (rs ! i) = [outs ! i]" by simp
    moreover from get_ng_outputs_length[OF outs] io have "i < length (g_output graph)" by simp
    ultimately show "i < length (g_output graph) \<and>
             (\<exists>source. input_values s' (get_results f ! i) = [source] \<and>
                friendly_name s' (get_results f ! i) =
                  vi_name (g_output graph ! i) @ ''/sink_port_'' @ std_to_string (snd source))"
      using nm f by simp
  qed
  have "friendly_name s' (get_results f ! i) \<noteq> friendly_name s' (get_results f ! j)"
    if "i < length (get_results f)" "j < length (get_results f)"
      "vi_name (g_output graph ! i) \<noteq> vi_name (g_output graph ! j)" for i j
  proof
    assume eq: "friendly_name s' (get_results f ! i) = friendly_name s' (get_results f ! j)"
    from names[rule_format, OF that(1)] obtain si :: Output where
      ni: "friendly_name s' (get_results f ! i) =
             vi_name (g_output graph ! i) @ ''/sink_port_'' @ std_to_string (snd si)"
      by auto
    from names[rule_format, OF that(2)] obtain sj :: Output where
      nj: "friendly_name s' (get_results f ! j) =
             vi_name (g_output graph ! j) @ ''/sink_port_'' @ std_to_string (snd sj)"
      by auto
    from eq ni nj have "vi_name (g_output graph ! i) @ ''/sink_port_'' @ std_to_string (snd si) =
                        vi_name (g_output graph ! j) @ ''/sink_port_'' @ std_to_string (snd sj)"
      by simp
    then have "vi_name (g_output graph ! i) = vi_name (g_output graph ! j)"
      by (rule sink_port_names_injective)
    with that(3) show False by simp
  qed
  with names show ?thesis by blast
qed

theorem result_friendly_names_witness:
  "\<exists>f s'. create_function [[''y'' \<mapsto> (0, 1)]] [] (get_graph (model_of [] [] [] [value_info ''y''])) store_one_op
             = Inr (f, s') \<and>
          get_results f = [1] \<and> friendly_name s' 1 = ''y/sink_port_1''"
proof -
  let ?g = "get_graph (model_of [] [] [] [value_info ''y''])"
  obtain f s' where cf: "create_function [[''y'' \<mapsto> (0, 1)]] [] ?g store_one_op = Inr (f, s')"
    and rs: "get_results f = [1]" and src: "input_values s' 1 = [(0, 1)]"
    by (simp add: create_function_def store_one_op_def example_defs get_node_def is_null_def
          make_shared_def set_friendly_name_def)
  from result_friendly_names[OF cf] rs src
  have "friendly_name s' 1 = ''y'' @ ''/sink_port_'' @ std_to_string 1"
    by (auto simp: example_defs)
  then have "friendly_name s' 1 = ''y/sink_port_1''"
    by (simp add: std_to_string.simps digit_char_def)
  with cf rs show ?thesis by blast
qed

subsection \<open>Friendly names\<close>

lemma name_outputs_Cons:
  assumes "i < length (n_output n)"
  shows "\<exists>s2. name_outputs n c i (out # rest) s = name_outputs n c (Suc i) rest s2 \<and>
              friendly_name s2 = (friendly_name s)(fst out := friendly_name_for n c i)"
  using assms
  by (auto simp: Let_def set_friendly_name_def set_name_def set_names_def friendly_name_for_def)

lemma name_outputs_other:
  "(\<forall>j<length outs. i0 + j < length (n_output n) \<longrightarrow> fst (outs ! j) \<noteq> a) \<Longrightarrow>
     friendly_name (name_outputs n c i0 outs s) a = friendly_name s a"
proof (induction outs arbitrary: i0 s)
  case Nil
  then show ?case by simp
next
  case (Cons out rest)
  show ?case
  proof (cases "i0 < length (n_output n)")
    case False
    then show ?thesis by simp
  next
    case True
    from name_outputs_Cons[OF True, of c out rest s] obtain s2 where
      step: "name_outputs n c i0 (out # rest) s = name_outputs n c (Suc i0) rest s2"
      and fn: "friendly_name s2 = (friendly_name s)(fst out := friendly_name_for n c i0)"
      by blast
    from Cons.prems True have ne: "fst out \<noteq> a" by force
    have "\<forall>j<length rest. Suc i0 + j < length (n_output n) \<longrightarrow> fst (rest ! j) \<noteq> a"
    proof (intro allI impI)
      fix j assume "j < length rest" "Suc i0 + j < length (n_output n)"
      with Cons.prems[rule_format, of "Suc j"] show "fst (rest ! j) \<noteq> a" by simp
    qed
    from Cons.IH[OF this, of s2] step fn ne show ?thesis by simp
  qed
qed

lemma name_outputs_last:
  "j < length outs \<Longrightarrow> i0 + j < length (n_output n) \<Longrightarrow>
   (\<forall>k. j < k \<and> k < length outs \<and> i0 + k < length (n_output n) \<longrightarrow> fst (outs ! k) \<noteq> fst (outs ! j)) \<Longrightarrow>
     friendly_name (name_outputs n c i0 outs s) (fst (outs ! j)) = friendly_name_for n c (i0 + j)"
proof (induction outs arbitrary: i0 j s)
  case Nil
  then show ?case by simp
next
  case (Cons out rest)
  from Cons.prems(2) have True: "i0 < length (n_output n)" by simp
  from name_outputs_Cons[OF True, of c out rest s] obtain s2 where
    step: "name_outputs n c i0 (out # rest) s = name_outputs n c (Suc i0) rest s2"
    and fn: "friendly_name s2 = (friendly_name s)(fst out := friendly_name_for n c i0)"
    by blast
  show ?case
  proof (cases j)
    case 0
    have "\<forall>k<length rest. Suc i0 + k < length (n_output n) \<longrightarrow> fst (rest ! k) \<noteq> fst out"
    proof (intro allI impI)
      fix k assume "k < length rest" "Suc i0 + k < length (n_output n)"
      with Cons.prems(3)[rule_format, of "Suc k"] 0 show "fst (rest ! k) \<noteq> fst out" by simp
    qed
    from name_outputs_other[OF this, of c s2] step fn 0 show ?thesis by simp
  next
    case (Suc j')
    with Cons.prems have a: "j' < length rest" and b: "Suc i0 + j' < length (n_output n)" by simp_all
    have c: "\<forall>k. j' < k \<and> k < length rest \<and> Suc i0 + k < length (n_output n) \<longrightarrow>
               fst (rest ! k) \<noteq> fst (rest ! j')"
    proof (intro allI impI)
      fix k assume "j' < k \<and> k < length rest \<and> Suc i0 + k < length (n_output n)"
      with Cons.prems(3)[rule_format, of "Suc k"] Suc show "fst (rest ! k) \<noteq> fst (rest ! j')" by simp
    qed
    from Cons.IH[OF a b c, of s2] step Suc show ?thesis by simp
  qed
qed


lemma common_node_iff:
  "outs \<noteq> [] \<Longrightarrow>
     common_node_for_all_outputs outs = Inr (\<forall>out\<in>set outs. fst out = fst (hd outs))"
  by (cases outs) (auto simp: common_node_for_all_outputs_def list_all_iff)

text \<open>
  Claim C6. For a node that is not an Identity and has at least one converted output,
  \<^verbatim>\<open>set_friendly_names\<close> succeeds. The loop writes, for every index below both the number of
  converted outputs and the number of declared outputs, the friendly name of the IR node
  that produces the output, in output order, so the last write to a node stands. Without
  a declared name the name written is the declared output name, and a node producing all
  the outputs ends up named after the last declared output. With a declared name and one
  common producing node, that node is named exactly by the declared name. With a declared
  name and pairwise distinct producing nodes, each one is named by the declared name, an
  underscore and its declared output name.
\<close>

theorem friendly_names_of_converted_outputs:
  assumes "n_op_type n \<noteq> ''Identity''" and "outs \<noteq> []"
  shows "\<exists>common s'.
           common_node_for_all_outputs outs = Inr common \<and>
           set_friendly_names n outs s = Inr s' \<and>
           (common \<longleftrightarrow> (\<forall>out\<in>set outs. fst out = fst (hd outs))) \<and>
           (\<forall>i. i < length outs \<and> i < length (n_output n) \<and>
                (\<forall>k. i < k \<and> k < length outs \<and> k < length (n_output n)
                       \<longrightarrow> fst (outs ! k) \<noteq> fst (outs ! i)) \<longrightarrow>
                friendly_name s' (fst (outs ! i)) =
                  (if n_name n = [] then n_output n ! i
                   else if common then n_name n
                   else n_name n @ ''_'' @ n_output n ! i)) \<and>
           (n_name n = [] \<and> common \<and> n_output n \<noteq> [] \<and> length (n_output n) \<le> length outs \<longrightarrow>
              friendly_name s' (fst (hd outs)) = last (n_output n)) \<and>
           (n_name n \<noteq> [] \<and> common \<and> n_output n \<noteq> [] \<longrightarrow>
              friendly_name s' (fst (hd outs)) = n_name n) \<and>
           (n_name n \<noteq> [] \<and> \<not> common \<and> distinct (map fst outs) \<longrightarrow>
              (\<forall>i. i < length outs \<and> i < length (n_output n) \<longrightarrow>
                 friendly_name s' (fst (outs ! i)) = n_name n @ ''_'' @ n_output n ! i))"
proof -
  define common where "common = (\<forall>out\<in>set outs. fst out = fst (hd outs))"
  define s' where "s' = name_outputs n common 0 outs s"
  have cn: "common_node_for_all_outputs outs = Inr common"
    using common_node_iff[OF assms(2)] by (simp add: common_def)
  have sf: "set_friendly_names n outs s = Inr s'"
    using assms(1) cn by (simp add: set_friendly_names_def s'_def)
  have G: "friendly_name s' (fst (outs ! i)) = friendly_name_for n common i"
    if "i < length outs" "i < length (n_output n)"
      "\<forall>k. i < k \<and> k < length outs \<and> k < length (n_output n) \<longrightarrow> fst (outs ! k) \<noteq> fst (outs ! i)"
    for i
    using name_outputs_last[of i outs 0 n common s] that by (simp add: s'_def)
  have same: "fst (outs ! i) = fst (hd outs)" if "common" "i < length outs" for i
    using that by (simp add: common_def)
  have general: "\<forall>i. i < length outs \<and> i < length (n_output n) \<and>
                (\<forall>k. i < k \<and> k < length outs \<and> k < length (n_output n)
                       \<longrightarrow> fst (outs ! k) \<noteq> fst (outs ! i)) \<longrightarrow>
                friendly_name s' (fst (outs ! i)) =
                  (if n_name n = [] then n_output n ! i
                   else if common then n_name n
                   else n_name n @ ''_'' @ n_output n ! i)"
    using G by (simp add: friendly_name_for_def)
  have unnamed: "friendly_name s' (fst (hd outs)) = last (n_output n)"
    if "n_name n = []" "common" "n_output n \<noteq> []" "length (n_output n) \<le> length outs"
  proof -
    let ?i = "length (n_output n) - 1"
    from that(3) have "0 < length (n_output n)" by simp
    with that(4) have i: "?i < length outs" "?i < length (n_output n)" by arith+
    have "\<forall>k. ?i < k \<and> k < length outs \<and> k < length (n_output n) \<longrightarrow> fst (outs ! k) \<noteq> fst (outs ! ?i)"
      by auto
    from G[OF i this] that(1) have "friendly_name s' (fst (outs ! ?i)) = n_output n ! ?i"
      by (simp add: friendly_name_for_def)
    with same[OF that(2) i(1)] that(3) show ?thesis by (simp add: last_conv_nth)
  qed
  have named_common: "friendly_name s' (fst (hd outs)) = n_name n"
    if "n_name n \<noteq> []" "common" "n_output n \<noteq> []"
  proof -
    let ?i = "min (length outs) (length (n_output n)) - 1"
    from that(3) assms(2) have "0 < length (n_output n)" "0 < length outs" by simp_all
    then have i: "?i < length outs" "?i < length (n_output n)" by arith+
    have "\<forall>k. ?i < k \<and> k < length outs \<and> k < length (n_output n) \<longrightarrow> fst (outs ! k) \<noteq> fst (outs ! ?i)"
      by auto
    from G[OF i this] that(1,2) have "friendly_name s' (fst (outs ! ?i)) = n_name n"
      by (simp add: friendly_name_for_def)
    with same[OF that(2) i(1)] show ?thesis by simp
  qed
  have named_distinct: "\<forall>i. i < length outs \<and> i < length (n_output n) \<longrightarrow>
                 friendly_name s' (fst (outs ! i)) = n_name n @ ''_'' @ n_output n ! i"
    if "n_name n \<noteq> []" "\<not> common" "distinct (map fst outs)"
  proof (intro allI impI)
    fix i assume i: "i < length outs \<and> i < length (n_output n)"
    have "\<forall>k. i < k \<and> k < length outs \<and> k < length (n_output n) \<longrightarrow> fst (outs ! k) \<noteq> fst (outs ! i)"
    proof (intro allI impI)
      fix k assume k: "i < k \<and> k < length outs \<and> k < length (n_output n)"
      from i k have "k < length (map fst outs)" "i < length (map fst outs)" "k \<noteq> i" by simp_all
      with that(3) have "map fst outs ! k \<noteq> map fst outs ! i"
        using nth_eq_iff_index_eq[of "map fst outs" k i] by blast
      with i k show "fst (outs ! k) \<noteq> fst (outs ! i)" by simp
    qed
    with G[of i] i that(1,2)
    show "friendly_name s' (fst (outs ! i)) = n_name n @ ''_'' @ n_output n ! i"
      by (simp add: friendly_name_for_def)
  qed
  from cn sf general unnamed named_common named_distinct show ?thesis
    unfolding common_def[symmetric] by (intro exI[of _ common] exI[of _ s']) (simp add: common_def)
qed

text \<open>
  The example of the specification: a node named \<open>N\<close> whose outputs \<open>out1\<close> and \<open>out2\<close> come
  from two different IR nodes.
\<close>

theorem friendly_names_of_converted_outputs_witness:
  "\<exists>s'. set_friendly_names node_two_outputs [(0, 0), (1, 0)] store_two_ops = Inr s' \<and>
         friendly_name s' 0 = ''N_out1'' \<and> friendly_name s' 1 = ''N_out2''"
proof -
  have 1: "n_op_type node_two_outputs \<noteq> ''Identity''" by (simp add: node_two_outputs_def)
  have 2: "[(0::nat, 0::nat), (1, 0)] \<noteq> []" by simp
  from friendly_names_of_converted_outputs[OF 1 2, of store_two_ops]
  obtain common s' where
    sf: "set_friendly_names node_two_outputs [(0, 0), (1, 0)] store_two_ops = Inr s'"
    and ci: "common \<longleftrightarrow> (\<forall>out\<in>set [(0::nat, 0::nat), (1, 0)]. fst out = fst (hd [(0::nat, 0::nat), (1, 0)]))"
    and c: "n_name node_two_outputs \<noteq> [] \<and> \<not> common \<and> distinct (map fst [(0::nat, 0::nat), (1, 0)]) \<longrightarrow>
              (\<forall>i. i < length [(0::nat, 0::nat), (1, 0)] \<and> i < length (n_output node_two_outputs) \<longrightarrow>
                 friendly_name s' (fst ([(0::nat, 0::nat), (1, 0)] ! i)) =
                   n_name node_two_outputs @ ''_'' @ n_output node_two_outputs ! i)"
    by blast
  from ci have nc: "\<not> common" by simp
  with c have all: "\<forall>i. i < length [(0::nat, 0::nat), (1, 0)] \<and> i < length (n_output node_two_outputs) \<longrightarrow>
                 friendly_name s' (fst ([(0::nat, 0::nat), (1, 0)] ! i)) =
                   n_name node_two_outputs @ ''_'' @ n_output node_two_outputs ! i"
    by (simp add: node_two_outputs_def)
  from all[rule_format, of 0] have "friendly_name s' 0 = ''N_out1''"
    by (simp add: node_two_outputs_def)
  moreover from all[rule_format, of 1] have "friendly_name s' 1 = ''N_out2''"
    by (simp add: node_two_outputs_def)
  ultimately show ?thesis using sf by blast
qed

subsection \<open>Failures of a conversion function\<close>

text \<open>
  Claim C9. When the conversion function of a node throws, \<^verbatim>\<open>make_ng_nodes\<close> fails as well:
  an \<^verbatim>\<open>OnnxNodeValidationFailure\<close> leaves it unchanged; any other standard exception is
  replaced by an \<^verbatim>\<open>ngraph_error\<close> whose message is the prefix identifying the node (its name,
  or its domain and operator type when it has no name), a colon and a line break, and
  the original message; an exception of any other type is rethrown as it is, after an
  error line with the same prefix has been logged.
\<close>

theorem conversion_failure_is_reraised:
  assumes "get_operator (n_op_type n) (n_domain n) = Inr ng_node_factory"
    and "ng_node_factory n (cache # parent) s = Inl (exc, s1)"
  shows "isl (make_ng_nodes get_operator parent n (cache, s)) \<and>
         (is_OnnxNodeValidationFailure exc \<longrightarrow>
            make_ng_nodes get_operator parent n (cache, s) = Inl (exc, s1)) \<and>
         (\<not> is_OnnxNodeValidationFailure exc \<and> is_std_exception exc \<longrightarrow>
            make_ng_nodes get_operator parent n (cache, s) =
              Inl (ngraph_error ((if n_name n = [] then get_op_domain_and_name n else n_name n)
                                 @ '':'' @ NL @ what exc), s1)) \<and>
         (\<not> is_std_exception exc \<longrightarrow>
            make_ng_nodes get_operator parent n (cache, s) =
              Inl (exc, s1\<lparr>log := log s1 @
                     [(ERR, (if n_name n = [] then get_op_domain_and_name n else n_name n)
                            @ ''Unhandled exception type. '' @ NL)]\<rparr>))"
  using assms
  by (cases exc) (simp_all add: make_ng_nodes_def get_error_msg_prefix_def NGRAPH_ERR_def)

theorem conversion_failure_is_reraised_witness:
  "make_ng_nodes example_get_operator [] node_add (Map.empty, empty_store)
     = Inl (ngraph_error (''sum:'' @ NL @ ''unsupported attribute''), empty_store)"
proof -
  have 1: "example_get_operator (n_op_type node_add) (n_domain node_add) = Inr failing_operator"
    by (simp add: operator_defs)
  have 2: "failing_operator node_add (Map.empty # []) empty_store
             = Inl (std_exception ''unsupported attribute'', empty_store)"
    by (simp add: operator_defs)
  from conversion_failure_is_reraised[where get_operator = example_get_operator and n = node_add
      and ng_node_factory = failing_operator and cache = Map.empty and parent = "[]"
      and s = empty_store and exc = "std_exception ''unsupported attribute''" and ?s1.0 = empty_store,
      OF 1 2]
  show ?thesis
    by (simp add: node_add_def)
qed

subsection \<open>Dangling parameters\<close>

lemma remove_dangling_parameters_spec:
  "remove_dangling_parameters s graph ps cache = (ps', cache') \<Longrightarrow>
     ps' = filter (\<lambda>p. \<not> (get_target_inputs s (p, 0) = [] \<and>
                             \<not> any_tensor_name_matches_onnx_output s (p, 0) graph)) ps \<and>
     (\<forall>nm. cache' nm =
        (if \<exists>p\<in>set ps. get_target_inputs s (p, 0) = [] \<and>
                          \<not> any_tensor_name_matches_onnx_output s (p, 0) graph \<and>
                          friendly_name s p = nm
         then None else cache nm))"
proof (induction ps arbitrary: cache ps' cache')
  case Nil
  then show ?case by simp
next
  case (Cons p ps)
  show ?case
  proof (cases "get_target_inputs s (p, 0) = [] \<and> \<not> any_tensor_name_matches_onnx_output s (p, 0) graph")
    case True
    with Cons.prems have "remove_dangling_parameters s graph ps (remove_node (friendly_name s p) cache) = (ps', cache')"
      by simp
    from Cons.IH[OF this] True show ?thesis by (auto simp: remove_node_def)
  next
    case False
    obtain ps1 c1 where rest: "remove_dangling_parameters s graph ps cache = (ps1, c1)"
      by (cases "remove_dangling_parameters s graph ps cache") auto
    with False Cons.prems have "ps' = p # ps1" "cache' = c1" by (auto split: if_splits)
    with Cons.IH[OF rest] False show ?thesis by auto
  qed
qed

text \<open>
  Claim C7 (amended). \<^verbatim>\<open>Graph::convert\<close> runs \<^verbatim>\<open>remove_dangling_parameters\<close> on the state that
  the conversion of the nodes leaves, and \<^verbatim>\<open>create_function\<close> takes the parameter list it
  returns. That list is the earlier list, in its order, without exactly the placeholders
  whose output has no consumer and none of whose tensor names is a declared output name.
  The cache loses exactly the entries keyed by the friendly name of a dropped placeholder;
  every other entry is what it was, also when it is bound to a dropped placeholder. A
  placeholder without consumers that carries a declared output name stays.
\<close>

theorem dangling_parameters_removed:
  assumes "remove_dangling_parameters s graph ps cache = (ps', cache')"
  shows "ps' = filter (\<lambda>p. \<not> (get_target_inputs s (p, 0) = [] \<and>
                                  \<not> any_tensor_name_matches_onnx_output s (p, 0) graph)) ps \<and>
         (\<forall>nm. cache' nm =
            (if \<exists>p\<in>set ps. get_target_inputs s (p, 0) = [] \<and>
                              \<not> any_tensor_name_matches_onnx_output s (p, 0) graph \<and>
                              friendly_name s p = nm
             then None else cache nm)) \<and>
         (\<forall>p\<in>set ps'. p \<in> set ps \<and>
            \<not> (get_target_inputs s (p, 0) = [] \<and>
               \<not> any_tensor_name_matches_onnx_output s (p, 0) graph)) \<and>
         (\<forall>p\<in>set ps. get_target_inputs s (p, 0) = [] \<and>
                        \<not> any_tensor_name_matches_onnx_output s (p, 0) graph \<longrightarrow>
            p \<notin> set ps' \<and> cache' (friendly_name s p) = None) \<and>
         (\<forall>p\<in>set ps. get_target_inputs s (p, 0) = [] \<and>
                        any_tensor_name_matches_onnx_output s (p, 0) graph \<longrightarrow>
            p \<in> set ps') \<and>
         (\<forall>nm out. cache' nm = Some out \<longrightarrow> cache nm = Some out)"
proof -
  note spec = remove_dangling_parameters_spec[OF assms]
  from spec have 1: "ps' = filter (\<lambda>p. \<not> (get_target_inputs s (p, 0) = [] \<and>
                                  \<not> any_tensor_name_matches_onnx_output s (p, 0) graph)) ps"
    by (rule conjunct1)
  from spec have 2: "\<forall>nm. cache' nm =
            (if \<exists>p\<in>set ps. get_target_inputs s (p, 0) = [] \<and>
                              \<not> any_tensor_name_matches_onnx_output s (p, 0) graph \<and>
                              friendly_name s p = nm
             then None else cache nm)"
    by (rule conjunct2)
  have 3: "\<forall>p\<in>set ps'. p \<in> set ps \<and>
            \<not> (get_target_inputs s (p, 0) = [] \<and>
               \<not> any_tensor_name_matches_onnx_output s (p, 0) graph)"
    using 1 by simp
  have 4: "\<forall>p\<in>set ps. get_target_inputs s (p, 0) = [] \<and>
                        \<not> any_tensor_name_matches_onnx_output s (p, 0) graph \<longrightarrow>
            p \<notin> set ps' \<and> cache' (friendly_name s p) = None"
    using 1 2 by auto
  have 5: "\<forall>p\<in>set ps. get_target_inputs s (p, 0) = [] \<and>
                        any_tensor_name_matches_onnx_output s (p, 0) graph \<longrightarrow>
            p \<in> set ps'"
    using 1 by simp
  have 6: "\<forall>nm out. cache' nm = Some out \<longrightarrow> cache nm = Some out"
    using 2 by (auto split: if_splits)
  from 1 2 3 4 5 6 show ?thesis by (intro conjI)
qed

theorem dangling_parameters_removed_witness:
  "\<exists>g s ps' cache'.
     Graph_ctor env_example (model_of [] [value_info ''unused'', value_info ''kept''] [] [value_info ''kept''])
       Map.empty empty_store = Inr (g, s) \<and>
     remove_dangling_parameters s (get_graph (m_model g)) (m_parameters g) (m_cache g) = (ps', cache') \<and>
     map (friendly_name s) (m_parameters g) = [''unused'', ''kept''] \<and>
     map (friendly_name s) ps' = [''kept''] \<and> cache' ''unused'' = None \<and>
     m_cache g ''unused'' = Some (0, 0) \<and> cache' ''kept'' = Some (1, 0)"
proof -
  let ?m = "model_of [] [value_info ''unused'', value_info ''kept''] [] [value_info ''kept'']"
  obtain g s where ctor: "Graph_ctor env_example ?m Map.empty empty_store = Inr (g, s)"
    and ps: "m_parameters g = [0, 1]"
    and fn: "friendly_name s 0 = ''unused''" "friendly_name s 1 = ''kept''"
    and d0: "get_target_inputs s (0, 0) = []"
            "\<not> any_tensor_name_matches_onnx_output s (0, 0) (get_graph (m_model g))"
    and d1: "any_tensor_name_matches_onnx_output s (1, 0) (get_graph (m_model g))"
    and c0: "m_cache g ''unused'' = Some (0, 0)" "m_cache g ''kept'' = Some (1, 0)"
    by (simp add: example_defs ctor_defs pruning_defs)
  obtain ps' cache' where
    rm: "remove_dangling_parameters s (get_graph (m_model g)) (m_parameters g) (m_cache g) = (ps', cache')"
    by (cases "remove_dangling_parameters s (get_graph (m_model g)) (m_parameters g) (m_cache g)") auto
  note main = dangling_parameters_removed[OF rm]
  from main have p: "ps' = filter (\<lambda>p. \<not> (get_target_inputs s (p, 0) = [] \<and>
        \<not> any_tensor_name_matches_onnx_output s (p, 0) (get_graph (m_model g)))) (m_parameters g)"
    by (rule conjunct1)
  from main have cc: "\<forall>nm. cache' nm =
            (if \<exists>p\<in>set (m_parameters g). get_target_inputs s (p, 0) = [] \<and>
                              \<not> any_tensor_name_matches_onnx_output s (p, 0) (get_graph (m_model g)) \<and>
                              friendly_name s p = nm
             then None else m_cache g nm)"
    by (rule conjunct1[OF conjunct2])
  from cc ps d0 fn have c: "cache' ''unused'' = None" by simp
  from cc ps d1 fn c0 have ck: "cache' ''kept'' = Some (1, 0)" by simp
  from p ps d0 d1 have p1: "ps' = [1]" by simp
  have m: "map (friendly_name s) (m_parameters g) = [''unused'', ''kept'']"
    using ps fn by simp
  have k: "map (friendly_name s) ps' = [''kept'']"
    using p1 fn by simp
  show ?thesis
    by (rule exI[of _ g], rule exI[of _ s], rule exI[of _ ps'], rule exI[of _ cache'])
       (intro conjI ctor rm m k c c0(1) ck)
qed

text \<open>
  The claim as stated has the dropped placeholder removed from the cache. The cache is
  keyed by tensor names and only the key that equals the placeholder's friendly name is
  erased. Below, the input \<open>x\<close> feeds an Identity node with the output \<open>y\<close>, whose conversion
  passes the placeholder's output through; \<open>y\<close> is bound to the placeholder too, and stays
  bound to it after the placeholder has been dropped from the parameter list.
\<close>

theorem dangling_parameter_alias_counterexample:
  "(case Graph_ctor env_example (model_of [t_good] [value_info ''x''] [node_identity] [value_info ''w''])
           Map.empty empty_store of
      Inl exc \<Rightarrow> False
    | Inr (g, s0) \<Rightarrow>
        (case make_ng_nodes example_get_operator [] node_identity (m_cache g, s0) of
           Inl exc \<Rightarrow> False
         | Inr (outs, cache1, s1) \<Rightarrow>
             (case remove_dangling_parameters s1 (get_graph (m_model g)) (m_parameters g) cache1 of
                (ps', cache') \<Rightarrow>
                  m_parameters g = [1] \<and> type_info s1 1 = Parameter \<and>
                  get_target_inputs s1 (1, 0) = [] \<and>
                  \<not> any_tensor_name_matches_onnx_output s1 (1, 0) (get_graph (m_model g)) \<and>
                  ps' = [] \<and> cache' ''y'' = Some (1, 0))))"
  by (simp add: example_defs ctor_defs pruning_defs operator_defs make_ng_nodes_def
        set_friendly_names_def add_names_def get_node_def)

subsection \<open>Inputs lifted from the parent scope\<close>














lemmas body_defs = converted_body_def Subgraph_ctor_def body_of_def parent_scope_def node_relu_def
  relu_operator_def make_ng_nodes_def set_friendly_names_def common_node_for_all_outputs_def
  get_node_def is_null_def set_name_def





text \<open>
  The slot that is rewired is the one whose index is the position of the input name among
  the explicit inputs of the node, whatever that slot reads. The Reciprocal node below
  has the single input \<open>x\<close> and is converted to a Divide node that reads the constant one at
  slot 0 and the parent's output at slot 1: the parameter created for \<open>x\<close> takes the place of
  the constant, and the Divide node still reads the parent's output.
\<close>

theorem rewired_slot_is_input_position_example:
  "(case converted_body node_reciprocal of
      Inl failure \<Rightarrow> False
    | Inr (sg, s) \<Rightarrow>
        g_node (get_graph (m_model sg)) = [node_reciprocal] \<and>
        n_input node_reciprocal = [''x''] \<and>
        get_ng_node_from_cache (m_parent_graph sg) ''x'' = Inr (0, 0) \<and>
        \<not> is_constant s 0 \<and>
        m_cache sg ''y'' = Some (2, 0) \<and>
        type_info s 2 = Op ''Divide'' \<and> is_constant s 1 \<and>
        input_values s 2 = [(1, 0), (0, 0)] \<and>
        (case find_inputs_from_parent (sg, s) of
           Inl exc \<Rightarrow> False
         | Inr (sg', s') \<Rightarrow>
             m_parameters sg' = [3] \<and>
             m_parameter_to_parent_node_map sg' = [(3, ''x'')] \<and>
             type_info s' 3 = Parameter \<and>
             input_values s' 2 = [(3, 0), (0, 0)]))"
  by (simp add: body_defs example_defs ctor_defs operator_defs find_inputs_from_parent_def
        find_explicit_input_def replace_input_from_parent_scope_with_parameter_def
        node_input_def replace_source_output_def is_constant_def
        node_reciprocal_def reciprocal_operator_def)

end
